theory Spec2Isabelle
  imports Complex_Main
begin

section \<open>Python values and exceptions\<close>

text \<open>
  The arguments of \<^verbatim>\<open>analyze_time_series\<close> are typed \<^verbatim>\<open>Sequence[Any]\<close>, so the model
  works on a universe of Python values: \<^verbatim>\<open>None\<close>, booleans, unbounded integers, floats,
  strings, lists (tuples behave alike here) and sets (which have a length but no indexed
  access). Floats are modelled as real numbers with exact arithmetic. The two places where
  a number leaves the range of a double with an exception are modelled (\<^verbatim>\<open>float\<close> of an
  integer, the root of \<^verbatim>\<open>statistics.stdev\<close>); rounding, the infinities and NaN (which
  \<^verbatim>\<open>float\<close> accepts as floats and as the strings \<^verbatim>\<open>"inf"\<close>, \<^verbatim>\<open>"nan"\<close>, \<^verbatim>\<open>"1e400"\<close>) are
  outside the model, so no statement below says that a call on arbitrary numeric data
  returns. Characters stand for code points.
\<close>

datatype pyval =
    PNone
  | PBool bool
  | PInt int
  | PFloat real
  | PStr string
  | PList "pyval list"
  | PSet "pyval list"

text \<open>
  The message of a \<^verbatim>\<open>WeatherAnalysisError\<close> is either one of the fixed texts of the module
  or the f-string \<^verbatim>\<open>f"Invalid temperature value at index {i}: {temp}"\<close>, kept with its two
  interpolated fields as data.
\<close>

datatype wa_message =
    Msg string
  | Invalid_temperature_value_at_index nat pyval

datatype pyexc =
    WeatherAnalysisError wa_message
  | TypeError
  | ValueError
  | OverflowError
  | IndexError
  | ZeroDivisionError
  | StatisticsError

section \<open>Built-ins used by the module\<close>

text \<open>\<^verbatim>\<open>len(x)\<close>: defined on strings, lists and sets, \<^verbatim>\<open>TypeError\<close> otherwise.\<close>

fun py_len :: "pyval \<Rightarrow> pyexc + nat" where
  "py_len (PStr s) = Inr (length s)"
| "py_len (PList xs) = Inr (length xs)"
| "py_len (PSet xs) = Inr (length xs)"
| "py_len _ = Inl TypeError"

text \<open>
  \<^verbatim>\<open>x[i]\<close> for a non-negative index: an element of a list, a one-character string of a
  string, \<^verbatim>\<open>IndexError\<close> out of range, \<^verbatim>\<open>TypeError\<close> on a value that is not subscriptable
  (a set, a number, \<^verbatim>\<open>None\<close>).
\<close>

fun py_getitem :: "pyval \<Rightarrow> nat \<Rightarrow> pyexc + pyval" where
  "py_getitem (PList xs) i = (if i < length xs then Inr (xs ! i) else Inl IndexError)"
| "py_getitem (PStr s) i = (if i < length s then Inr (PStr [s ! i]) else Inl IndexError)"
| "py_getitem _ i = Inl TypeError"

text \<open>
  \<^verbatim>\<open>float(x)\<close>. An integer converts unless it rounds beyond the largest double, which
  happens from \<open>2^1024 - 2^970\<close> on and raises \<^verbatim>\<open>OverflowError\<close>. A string goes through the
  interpreter's parser, which is not part of the repository: the model takes it as the
  parameter \<open>parse\<close>, so that every statement holds whatever strings are numeric.
  \<^verbatim>\<open>None\<close>, lists and sets raise \<^verbatim>\<open>TypeError\<close>.
\<close>

definition float_overflow_bound :: int where
  "float_overflow_bound = 2 ^ 1024 - 2 ^ 970"

fun py_float :: "(string \<Rightarrow> real option) \<Rightarrow> pyval \<Rightarrow> pyexc + real" where
  "py_float parse (PFloat x) = Inr x"
| "py_float parse (PBool b) = Inr (if b then 1 else 0)"
| "py_float parse (PInt n) =
     (if \<bar>n\<bar> < float_overflow_bound then Inr (of_int n) else Inl OverflowError)"
| "py_float parse (PStr s) = (case parse s of Some x \<Rightarrow> Inr x | None \<Rightarrow> Inl ValueError)"
| "py_float parse _ = Inl TypeError"

text \<open>\<^verbatim>\<open>str(n)\<close> of a non-negative integer, as the f-strings of the warnings render it.\<close>

definition digit_char :: "nat \<Rightarrow> char" where
  "digit_char d = ''0123456789'' ! d"

fun str_nat :: "nat \<Rightarrow> string" where
  "str_nat n = (if n < 10 then [digit_char n] else str_nat (n div 10) @ [digit_char (n mod 10)])"

declare str_nat.simps [simp del]

text \<open>
  \<^verbatim>\<open>min(xs)\<close> and \<^verbatim>\<open>max(xs)\<close> keep the first item and replace it only by a strictly
  smaller (larger) one; on an empty list they raise \<^verbatim>\<open>ValueError\<close>.
\<close>

fun py_min :: "real list \<Rightarrow> pyexc + real" where
  "py_min [] = Inl ValueError"
| "py_min (x # xs) = Inr (fold (\<lambda>item best. if item < best then item else best) xs x)"

fun py_max :: "real list \<Rightarrow> pyexc + real" where
  "py_max [] = Inl ValueError"
| "py_max (x # xs) = Inr (fold (\<lambda>item best. if item > best then item else best) xs x)"

text \<open>\<^verbatim>\<open>xs.index(v)\<close>: the first position holding \<open>v\<close>, \<^verbatim>\<open>ValueError\<close> when there is none.\<close>

fun py_index :: "real list \<Rightarrow> real \<Rightarrow> pyexc + nat" where
  "py_index [] v = Inl ValueError"
| "py_index (x # xs) v =
     (if x = v then Inr 0
      else case py_index xs v of Inl e \<Rightarrow> Inl e | Inr i \<Rightarrow> Inr (Suc i))"

text \<open>\<^verbatim>\<open>xs[i]\<close> on the list of valid times.\<close>

definition list_getitem :: "'a list \<Rightarrow> nat \<Rightarrow> pyexc + 'a" where
  "list_getitem xs i = (if i < length xs then Inr (xs ! i) else Inl IndexError)"

section \<open>The statistics module\<close>

text \<open>
  \<^verbatim>\<open>statistics.median\<close> sorts the data and returns the middle item, or the mean of the two
  middle items for an even count; it raises \<^verbatim>\<open>StatisticsError\<close> on no data.
\<close>

definition statistics_median :: "real list \<Rightarrow> pyexc + real" where
  "statistics_median data =
     (let d = sort data; n = length d in
      if n = 0 then Inl StatisticsError
      else if n mod 2 = 1 then Inr (d ! (n div 2))
      else Inr ((d ! (n div 2 - 1) + d ! (n div 2)) / 2))"

text \<open>
  \<^verbatim>\<open>statistics.stdev\<close> (as CPython 3.11 and later define it) works on exact fractions:
  from the sum \<open>sx\<close> of the data and the sum \<open>sxx\<close> of their squares it forms
  \<open>(n * sxx - sx * sx) / n\<close>, divides by \<open>n - 1\<close> and takes the square root. Fewer than two
  data points raise \<^verbatim>\<open>StatisticsError\<close>. The root is returned as a float: when it rounds
  beyond the largest double, that is from \<open>2^1024 - 2^970\<close> on, the final division raises
  \<^verbatim>\<open>OverflowError\<close>. The data \<open>3 * 2^1022\<close> and \<open>- 3 * 2^1022\<close>, both floats, do that.
\<close>

definition statistics_ss :: "real list \<Rightarrow> real" where
  "statistics_ss data =
     (let n = real (length data); sx = sum_list data; sxx = sum_list (map (\<lambda>x. x * x) data)
      in (n * sxx - sx * sx) / n)"

definition statistics_stdev :: "real list \<Rightarrow> pyexc + real" where
  "statistics_stdev data =
     (let n = length data in
      if n < 2 then Inl StatisticsError
      else let root = sqrt (statistics_ss data / real (n - 1)) in
        if root < real_of_int float_overflow_bound then Inr root else Inl OverflowError)"

section \<open>weather_analysis.py\<close>

definition calculate_median :: "real list \<Rightarrow> pyexc + real option" where
  "calculate_median temperatures =
     (if temperatures = [] then Inr None
      else case statistics_median temperatures of Inl e \<Rightarrow> Inl e | Inr m \<Rightarrow> Inr (Some m))"

definition calculate_standard_deviation :: "real list \<Rightarrow> pyexc + real option" where
  "calculate_standard_deviation temperatures =
     (if temperatures = [] \<or> length temperatures < 2 then Inr None
      else case statistics_stdev temperatures of Inl e \<Rightarrow> Inl e | Inr s \<Rightarrow> Inr (Some s))"

text \<open>The returned dictionary; the keys \<^verbatim>\<open>min\<close> and \<^verbatim>\<open>max\<close> are the fields \<open>min_temp\<close>, \<open>max_temp\<close>.\<close>

record result =
  median :: "real option"
  stddev :: "real option"
  min_temp :: real
  min_time :: pyval
  max_temp :: real
  max_time :: pyval
  average :: real
  truncated :: bool
  warnings :: "string list"
  count :: nat

definition length_warning :: "nat \<Rightarrow> nat \<Rightarrow> string" where
  "length_warning len_times len_temps =
     ''Input lengths differ: times='' @ str_nat len_times @ '', temperatures='' @
     str_nat len_temps @ ''; truncated to shorter length.''"

definition skipped_warning :: "nat \<Rightarrow> string" where
  "skipped_warning skipped_pairs =
     ''Skipped '' @ str_nat skipped_pairs @ '' pair(s) where time or temperature was missing.''"

text \<open>
  The loop \<^verbatim>\<open>for i in range(effective_length)\<close>, run over the list of its indices, on the
  state \<open>(valid_times, valid_temps, skipped_pairs)\<close>. Both items are read before the
  \<^verbatim>\<open>None\<close> test; of the exceptions of \<^verbatim>\<open>float\<close> only \<^verbatim>\<open>TypeError\<close> and \<^verbatim>\<open>ValueError\<close> are
  caught and turned into a \<^verbatim>\<open>WeatherAnalysisError\<close>.
\<close>

fun validate_pairs ::
  "(string \<Rightarrow> real option) \<Rightarrow> pyval \<Rightarrow> pyval \<Rightarrow> nat list \<Rightarrow>
   pyval list \<times> real list \<times> nat \<Rightarrow> pyexc + (pyval list \<times> real list \<times> nat)" where
  "validate_pairs parse times_seq temperatures [] st = Inr st"
| "validate_pairs parse times_seq temperatures (i # rest) (valid_times, valid_temps, skipped_pairs) =
     (case py_getitem times_seq i of
        Inl e \<Rightarrow> Inl e
      | Inr t \<Rightarrow>
     (case py_getitem temperatures i of
        Inl e \<Rightarrow> Inl e
      | Inr temp \<Rightarrow>
        if t = PNone \<or> temp = PNone then
          validate_pairs parse times_seq temperatures rest (valid_times, valid_temps, skipped_pairs + 1)
        else
          (case py_float parse temp of
             Inl e \<Rightarrow>
               if e = TypeError \<or> e = ValueError
               then Inl (WeatherAnalysisError (Invalid_temperature_value_at_index i temp))
               else Inl e
           | Inr ftemp \<Rightarrow>
               validate_pairs parse times_seq temperatures rest
                 (valid_times @ [t], valid_temps @ [ftemp], skipped_pairs))))"

text \<open>Lines 105 to 133: the metrics over the valid pairs and the returned dictionary.\<close>

definition compute_metrics ::
  "pyval list \<Rightarrow> real list \<Rightarrow> bool \<Rightarrow> string list \<Rightarrow> pyexc + result" where
  "compute_metrics valid_times valid_temps truncated_flag warnings_list =
     (case calculate_median valid_temps of Inl e \<Rightarrow> Inl e | Inr median_temp \<Rightarrow>
     (case calculate_standard_deviation valid_temps of Inl e \<Rightarrow> Inl e | Inr stddev_temp \<Rightarrow>
     (case py_min valid_temps of Inl e \<Rightarrow> Inl e | Inr min_t \<Rightarrow>
     (case py_max valid_temps of Inl e \<Rightarrow> Inl e | Inr max_t \<Rightarrow>
     (case py_index valid_temps min_t of Inl e \<Rightarrow> Inl e | Inr min_index \<Rightarrow>
     (case py_index valid_temps max_t of Inl e \<Rightarrow> Inl e | Inr max_index \<Rightarrow>
     (case list_getitem valid_times min_index of Inl e \<Rightarrow> Inl e | Inr min_temp_time \<Rightarrow>
     (case list_getitem valid_times max_index of Inl e \<Rightarrow> Inl e | Inr max_temp_time \<Rightarrow>
      if length valid_temps = 0 then Inl ZeroDivisionError
      else Inr \<lparr> median = median_temp, stddev = stddev_temp,
                 min_temp = min_t, min_time = min_temp_time,
                 max_temp = max_t, max_time = max_temp_time,
                 average = sum_list valid_temps / real (length valid_temps),
                 truncated = truncated_flag, warnings = warnings_list,
                 count = length valid_temps \<rparr>))))))))"

text \<open>Lines 69 to 103, once both lengths are known.\<close>

definition reconcile ::
  "(string \<Rightarrow> real option) \<Rightarrow> pyval \<Rightarrow> pyval \<Rightarrow> nat \<Rightarrow> nat \<Rightarrow> pyexc + result" where
  "reconcile parse times_seq temperatures len_times len_temps =
     (if len_times = 0 \<or> len_temps = 0
      then Inl (WeatherAnalysisError (Msg '''times' and 'temperatures' must not be empty.''))
      else
        let truncated_flag = (len_times \<noteq> len_temps);
            warnings0 = (if len_times \<noteq> len_temps then [length_warning len_times len_temps] else []);
            effective_length = min len_times len_temps
        in (case validate_pairs parse times_seq temperatures [0..<effective_length] ([], [], 0) of
             Inl e \<Rightarrow> Inl e
           | Inr (valid_times, valid_temps, skipped_pairs) \<Rightarrow>
               let warnings1 = (if skipped_pairs \<noteq> 0
                                then warnings0 @ [skipped_warning skipped_pairs] else warnings0)
               in if valid_temps = []
                  then Inl (WeatherAnalysisError
                         (Msg ''No valid time/temperature pairs available after validation.''))
                  else compute_metrics valid_times valid_temps truncated_flag warnings1))"

definition analyze_time_series ::
  "(string \<Rightarrow> real option) \<Rightarrow> pyval \<Rightarrow> pyval \<Rightarrow> pyexc + result" where
  "analyze_time_series parse times_seq temperatures =
     (if times_seq = PNone \<or> temperatures = PNone
      then Inl (WeatherAnalysisError (Msg ''Both 'times' and 'temperatures' must be provided.''))
      else (case py_len times_seq of
        Inl e \<Rightarrow> Inl (WeatherAnalysisError
                   (Msg '''times' and 'temperatures' must be sequences (e.g., lists).''))
      | Inr len_times \<Rightarrow>
      (case py_len temperatures of
        Inl e \<Rightarrow> Inl (WeatherAnalysisError
                   (Msg '''times' and 'temperatures' must be sequences (e.g., lists).''))
      | Inr len_temps \<Rightarrow> reconcile parse times_seq temperatures len_times len_temps)))"

section \<open>Vocabulary of the specification\<close>

text \<open>
  A proper sequence is a value with a length and indexed access: a list or a string.
  \<open>sequence_items\<close> gives its items in order, and nothing for any other value.
\<close>

fun sequence_items :: "pyval \<Rightarrow> pyval list option" where
  "sequence_items (PList xs) = Some xs"
| "sequence_items (PStr s) = Some (map (\<lambda>c. PStr [c]) s)"
| "sequence_items _ = None"

text \<open>
  A temperature is coercible when \<^verbatim>\<open>float\<close> returns on it; \<open>float_value\<close> is the number it
  returns. A pair is present when neither its time nor its temperature is \<^verbatim>\<open>None\<close>.
\<close>

definition float_value :: "(string \<Rightarrow> real option) \<Rightarrow> pyval \<Rightarrow> real" where
  "float_value parse v = (case py_float parse v of Inr x \<Rightarrow> x | Inl e \<Rightarrow> 0)"

definition coercible :: "(string \<Rightarrow> real option) \<Rightarrow> pyval \<Rightarrow> bool" where
  "coercible parse v = (case py_float parse v of Inr x \<Rightarrow> True | Inl e \<Rightarrow> False)"

definition present :: "pyval list \<Rightarrow> pyval list \<Rightarrow> nat \<Rightarrow> bool" where
  "present ts xs i = (ts ! i \<noteq> PNone \<and> xs ! i \<noteq> PNone)"

text \<open>
  A temperature is numeric when it is a boolean, an integer or a float, and a numeric
  string when the parser accepts it. An integer is within the range of a float when
  \<^verbatim>\<open>float\<close> does not overflow on it.
\<close>

fun numeric :: "(string \<Rightarrow> real option) \<Rightarrow> pyval \<Rightarrow> bool" where
  "numeric parse (PBool b) = True"
| "numeric parse (PInt n) = True"
| "numeric parse (PFloat x) = True"
| "numeric parse (PStr s) = (parse s \<noteq> None)"
| "numeric parse _ = False"

fun in_float_range :: "pyval \<Rightarrow> bool" where
  "in_float_range (PInt n) = (\<bar>n\<bar> < float_overflow_bound)"
| "in_float_range _ = True"

text \<open>
  The standard deviation of the data is representable when \<^verbatim>\<open>statistics.stdev\<close> is not
  called on them (fewer than two points) or its root is within the range of a float.
\<close>

definition stdev_representable :: "real list \<Rightarrow> bool" where
  "stdev_representable xs =
     (length xs < 2 \<or>
      sqrt (statistics_ss xs / real (length xs - 1)) < real_of_int float_overflow_bound)"

text \<open>
  The warnings of a successful call, from the two lengths and the number of skipped pairs:
  the length warning of line 77 first, the skipped-pair warning of line 100 after it.
\<close>

definition expected_warnings :: "nat \<Rightarrow> nat \<Rightarrow> nat \<Rightarrow> string list" where
  "expected_warnings len_times len_temps skipped =
     (if len_times \<noteq> len_temps then [length_warning len_times len_temps] else []) @
     (if skipped \<noteq> 0 then [skipped_warning skipped] else [])"

text \<open>
  The sample standard deviation in the words of the specification: the square root of the
  sum of squared deviations from the mean, divided by \<open>n - 1\<close>.
\<close>

definition mean :: "real list \<Rightarrow> real" where
  "mean xs = sum_list xs / real (length xs)"

definition bessel_stdev :: "real list \<Rightarrow> real" where
  "bessel_stdev xs = sqrt ((\<Sum>x\<leftarrow>xs. (x - mean xs)\<^sup>2) / real (length xs - 1))"

text \<open>
  The number a string of decimal digits denotes, to read back the numbers that the warnings
  render.
\<close>

definition decimal_value :: "string \<Rightarrow> nat option" where
  "decimal_value s =
     (if s \<noteq> [] \<and> list_all (\<lambda>c. c \<in> set ''0123456789'') s
      then Some (foldl (\<lambda>a c. 10 * a + (of_char c - 48)) 0 s)
      else None)"

text \<open>
  A parser for concrete evaluations: it accepts the unsigned decimal integers, a fragment
  of what \<^verbatim>\<open>float\<close> accepts on strings.
\<close>

definition parse_unsigned :: "string \<Rightarrow> real option" where
  "parse_unsigned s =
     (if s \<noteq> [] \<and> list_all (\<lambda>c. c \<in> set ''0123456789'') s
      then Some (real (foldl (\<lambda>a c. 10 * a + (of_char c - 48)) 0 s))
      else None)"

section \<open>Sequences and the validation loop\<close>

lemma sequence_items_len: "sequence_items v = Some xs \<Longrightarrow> py_len v = Inr (length xs)"
  by (cases v) auto

lemma sequence_items_getitem:
  "sequence_items v = Some xs \<Longrightarrow> i < length xs \<Longrightarrow> py_getitem v i = Inr (xs ! i)"
  by (cases v) auto

lemma validate_pairs_lengths:
  "validate_pairs parse tm tp ixs (vt, vx, sk) = Inr (vt', vx', sk') \<Longrightarrow>
   length vt' + length vx = length vx' + length vt \<and>
   length vx' + sk' = length vx + sk + length ixs \<and> sk \<le> sk' \<and> length vx \<le> length vx'"
proof (induction ixs arbitrary: vt vx sk)
  case Nil
  then show ?case by simp
next
  case (Cons i ixs)
  then show ?case
    by (fastforce split: sum.splits if_splits)
qed

lemma validate_pairs_ok:
  assumes "sequence_items tm = Some ts" "sequence_items tp = Some xs"
    and "\<forall>i\<in>set ixs. i < length ts \<and> i < length xs"
    and "\<forall>i\<in>set ixs. present ts xs i \<longrightarrow> coercible parse (xs ! i)"
  shows "validate_pairs parse tm tp ixs (vt, vx, sk) =
         Inr (vt @ map (\<lambda>i. ts ! i) (filter (present ts xs) ixs),
              vx @ map (\<lambda>i. float_value parse (xs ! i)) (filter (present ts xs) ixs),
              sk + length (filter (\<lambda>i. \<not> present ts xs i) ixs))"
  using assms(3,4)
proof (induction ixs arbitrary: vt vx sk)
  case Nil
  then show ?case by simp
next
  case (Cons i ixs)
  have gi: "py_getitem tm i = Inr (ts ! i)" "py_getitem tp i = Inr (xs ! i)"
    using Cons.prems(1) assms(1,2) by (simp_all add: sequence_items_getitem)
  show ?case
  proof (cases "present ts xs i")
    case True
    then obtain x where x: "py_float parse (xs ! i) = Inr x"
      using Cons.prems(2) by (auto simp: coercible_def split: sum.splits)
    then have fv: "float_value parse (xs ! i) = x" by (simp add: float_value_def)
    show ?thesis using True x fv gi Cons.IH Cons.prems
      by (simp add: present_def)
  next
    case False
    then show ?thesis using gi Cons.IH Cons.prems
      by (auto simp add: present_def)
  qed
qed

lemma py_min_Min: "xs \<noteq> [] \<Longrightarrow> py_min xs = Inr (Min (set xs))"
proof (cases xs)
  case Nil
  assume "xs \<noteq> []"
  with Nil show ?thesis by simp
next
  case (Cons a list)
  have f: "(\<lambda>item best::real. if item < best then item else best) = min"
    by (auto simp: fun_eq_iff min_def)
  show ?thesis unfolding Cons py_min.simps f
    by (simp only: Min.set_eq_fold)
qed

lemma py_max_Max: "xs \<noteq> [] \<Longrightarrow> py_max xs = Inr (Max (set xs))"
proof (cases xs)
  case Nil
  assume "xs \<noteq> []"
  with Nil show ?thesis by simp
next
  case (Cons a list)
  have f: "(\<lambda>item best::real. if item > best then item else best) = max"
    by (auto simp: fun_eq_iff max_def)
  show ?thesis unfolding Cons py_max.simps f
    by (simp only: Max.set_eq_fold)
qed

lemma py_index_first:
  "py_index xs v = Inr i \<longleftrightarrow> i < length xs \<and> xs ! i = v \<and> (\<forall>j<i. xs ! j \<noteq> v)"
proof (induction xs arbitrary: i)
  case Nil
  then show ?case by simp
next
  case (Cons x xs)
  show ?case
  proof (cases "x = v")
    case True
    then show ?thesis by (cases i) auto
  next
    case False
    show ?thesis
    proof (cases i)
      case 0
      with False show ?thesis by (auto split: sum.splits)
    next
      case (Suc k)
      have "(\<forall>j<Suc k. (x # xs) ! j \<noteq> v) \<longleftrightarrow> (\<forall>j<k. xs ! j \<noteq> v)"
        using False by (auto simp: less_Suc_eq_0_disj)
      with False Suc Cons.IH[of k] show ?thesis
        by (auto split: sum.splits)
    qed
  qed
qed

lemma py_index_member: "v \<in> set xs \<Longrightarrow> \<exists>i. py_index xs v = Inr i"
  by (induction xs) (auto split: sum.splits)

lemma statistics_median_total: "xs \<noteq> [] \<Longrightarrow> \<exists>m. statistics_median xs = Inr m"
proof -
  assume "xs \<noteq> []"
  then have "length (sort xs) \<noteq> 0" by simp
  then show ?thesis
    unfolding statistics_median_def Let_def by (simp only: if_False) (rule if_split [THEN iffD2], blast)
qed

lemma calculate_median_total: "\<exists>m. calculate_median xs = Inr m"
  using statistics_median_total[of xs]
  by (auto simp: calculate_median_def)

lemma calculate_standard_deviation_eq:
  "calculate_standard_deviation xs =
     (if stdev_representable xs
      then Inr (if length xs < 2 then None
                else Some (sqrt (statistics_ss xs / real (length xs - 1))))
      else Inl OverflowError)"
  by (auto simp: calculate_standard_deviation_def statistics_stdev_def stdev_representable_def
      Let_def)

lemma compute_metrics_cases:
  assumes "vx \<noteq> []" "length vt = length vx"
  shows "\<exists>med i j. calculate_median vx = Inr med \<and>
           py_index vx (Min (set vx)) = Inr i \<and> py_index vx (Max (set vx)) = Inr j \<and>
           compute_metrics vt vx tr ws =
             (if stdev_representable vx
              then Inr \<lparr> median = med,
                   stddev = (if length vx < 2 then None
                             else Some (sqrt (statistics_ss vx / real (length vx - 1)))),
                   min_temp = Min (set vx), min_time = vt ! i,
                   max_temp = Max (set vx), max_time = vt ! j,
                   average = sum_list vx / real (length vx),
                   truncated = tr, warnings = ws, count = length vx \<rparr>
              else Inl OverflowError)"
proof -
  obtain med where med: "calculate_median vx = Inr med"
    using calculate_median_total by blast
  have "Min (set vx) \<in> set vx" "Max (set vx) \<in> set vx"
    using assms(1) by simp_all
  then obtain i j where ij: "py_index vx (Min (set vx)) = Inr i" "py_index vx (Max (set vx)) = Inr j"
    using py_index_member by blast
  then have lt: "i < length vt" "j < length vt"
    using assms(2) by (simp_all add: py_index_first)
  have "compute_metrics vt vx tr ws =
             (if stdev_representable vx
              then Inr \<lparr> median = med,
                   stddev = (if length vx < 2 then None
                             else Some (sqrt (statistics_ss vx / real (length vx - 1)))),
                   min_temp = Min (set vx), min_time = vt ! i,
                   max_temp = Max (set vx), max_time = vt ! j,
                   average = sum_list vx / real (length vx),
                   truncated = tr, warnings = ws, count = length vx \<rparr>
              else Inl OverflowError)"
    using med ij lt assms(1)
    by (simp add: compute_metrics_def calculate_standard_deviation_eq py_min_Min py_max_Max
        list_getitem_def)
  with med ij show ?thesis by blast
qed

lemma compute_metrics_total:
  assumes "vx \<noteq> []" "length vt = length vx" "stdev_representable vx"
  shows "\<exists>med i j. calculate_median vx = Inr med \<and>
           py_index vx (Min (set vx)) = Inr i \<and> py_index vx (Max (set vx)) = Inr j \<and>
           compute_metrics vt vx tr ws =
             Inr \<lparr> median = med,
                   stddev = (if length vx < 2 then None
                             else Some (sqrt (statistics_ss vx / real (length vx - 1)))),
                   min_temp = Min (set vx), min_time = vt ! i,
                   max_temp = Max (set vx), max_time = vt ! j,
                   average = sum_list vx / real (length vx),
                   truncated = tr, warnings = ws, count = length vx \<rparr>"
  using compute_metrics_cases[OF assms(1,2), of tr ws] assms(3) by simp

lemma compute_metrics_Inr:
  assumes "vx \<noteq> []" "length vt = length vx" "compute_metrics vt vx tr ws = Inr r"
  shows "stdev_representable vx \<and>
         (\<exists>med i j. calculate_median vx = Inr med \<and>
           py_index vx (Min (set vx)) = Inr i \<and> py_index vx (Max (set vx)) = Inr j \<and>
           r = \<lparr> median = med,
                   stddev = (if length vx < 2 then None
                             else Some (sqrt (statistics_ss vx / real (length vx - 1)))),
                   min_temp = Min (set vx), min_time = vt ! i,
                   max_temp = Max (set vx), max_time = vt ! j,
                   average = sum_list vx / real (length vx),
                   truncated = tr, warnings = ws, count = length vx \<rparr>)"
proof (cases "stdev_representable vx")
  case True
  with compute_metrics_cases[OF assms(1,2), of tr ws] assms(3) show ?thesis by auto
next
  case False
  with compute_metrics_cases[OF assms(1,2), of tr ws] assms(3) show ?thesis by auto
qed

lemma compute_metrics_Inl:
  assumes "vx \<noteq> []" "length vt = length vx" "compute_metrics vt vx tr ws = Inl e"
  shows "e = OverflowError \<and> \<not> stdev_representable vx"
proof (cases "stdev_representable vx")
  case True
  with compute_metrics_cases[OF assms(1,2), of tr ws] assms(3) show ?thesis by auto
next
  case False
  with compute_metrics_cases[OF assms(1,2), of tr ws] assms(3) show ?thesis by auto
qed

lemma analyze_time_series_Inr:
  "analyze_time_series parse tm tp = Inr r \<longleftrightarrow>
     (\<exists>lt lx vt vx sk. py_len tm = Inr lt \<and> py_len tp = Inr lx \<and> lt \<noteq> 0 \<and> lx \<noteq> 0 \<and>
        validate_pairs parse tm tp [0..<min lt lx] ([], [], 0) = Inr (vt, vx, sk) \<and> vx \<noteq> [] \<and>
        compute_metrics vt vx (lt \<noteq> lx) (expected_warnings lt lx sk) = Inr r)"
  unfolding analyze_time_series_def reconcile_def Let_def expected_warnings_def
  by (cases tm; cases tp) (auto split: sum.splits prod.splits if_splits)

lemma analyze_time_series_valid:
  assumes "py_len tm = Inr lt" "py_len tp = Inr lx" "lt \<noteq> 0" "lx \<noteq> 0"
    and "validate_pairs parse tm tp [0..<min lt lx] ([], [], 0) = Inr (vt, vx, sk)" "vx \<noteq> []"
  shows "analyze_time_series parse tm tp =
           compute_metrics vt vx (lt \<noteq> lx) (expected_warnings lt lx sk)"
proof -
  have "tm \<noteq> PNone" "tp \<noteq> PNone" using assms(1,2) by auto
  then show ?thesis using assms
    unfolding analyze_time_series_def reconcile_def Let_def expected_warnings_def
    by (simp split: sum.splits prod.splits)
qed

lemma sum_squared_deviations:
  "(\<Sum>x\<leftarrow>xs. (x - m)\<^sup>2) = (\<Sum>x\<leftarrow>xs. x * x) - 2 * m * sum_list xs + real (length xs) * m\<^sup>2"
  by (induction xs) (simp_all add: power2_eq_square algebra_simps)

lemma statistics_ss_deviations:
  assumes "xs \<noteq> []"
  shows "statistics_ss xs = (\<Sum>x\<leftarrow>xs. (x - mean xs)\<^sup>2)"
proof -
  have n: "real (length xs) \<noteq> 0" using assms by simp
  show ?thesis
    unfolding statistics_ss_def Let_def sum_squared_deviations mean_def
    using n by (simp add: field_simps power2_eq_square)
qed


lemma validate_pairs_same_length:
  "validate_pairs parse tm tp ixs ([], [], 0) = Inr (vt, vx, sk) \<Longrightarrow>
   length vt = length vx \<and> length vx + sk = length ixs"
  using validate_pairs_lengths[of parse tm tp ixs "[]" "[]" 0 vt vx sk] by simp

section \<open>What a successful call returns\<close>

lemma analyze_time_series_returns:
  assumes "py_len tm = Inr lt" "py_len tp = Inr lx" "lt \<noteq> 0" "lx \<noteq> 0"
    and "validate_pairs parse tm tp [0..<min lt lx] ([], [], 0) = Inr (vt, vx, sk)" "vx \<noteq> []"
    and "stdev_representable vx"
  shows "\<exists>med i j. calculate_median vx = Inr med \<and>
           py_index vx (Min (set vx)) = Inr i \<and> py_index vx (Max (set vx)) = Inr j \<and>
           analyze_time_series parse tm tp =
             Inr \<lparr> median = med,
                   stddev = (if length vx < 2 then None
                             else Some (sqrt (statistics_ss vx / real (length vx - 1)))),
                   min_temp = Min (set vx), min_time = vt ! i,
                   max_temp = Max (set vx), max_time = vt ! j,
                   average = sum_list vx / real (length vx),
                   truncated = (lt \<noteq> lx), warnings = expected_warnings lt lx sk,
                   count = length vx \<rparr>"
proof -
  have "length vt = length vx" using assms(5) validate_pairs_same_length by blast
  from compute_metrics_total[OF assms(6) this assms(7), of "lt \<noteq> lx" "expected_warnings lt lx sk"]
  show ?thesis unfolding analyze_time_series_valid[OF assms(1-6)] .
qed

lemma analyze_time_series_stdev_overflow:
  assumes "py_len tm = Inr lt" "py_len tp = Inr lx" "lt \<noteq> 0" "lx \<noteq> 0"
    and "validate_pairs parse tm tp [0..<min lt lx] ([], [], 0) = Inr (vt, vx, sk)" "vx \<noteq> []"
    and "\<not> stdev_representable vx"
  shows "analyze_time_series parse tm tp = Inl OverflowError"
proof -
  have "length vt = length vx" using assms(5) validate_pairs_same_length by blast
  from compute_metrics_cases[OF assms(6) this, of "lt \<noteq> lx" "expected_warnings lt lx sk"] assms(7)
  show ?thesis unfolding analyze_time_series_valid[OF assms(1-6)] by auto
qed

lemma analyze_time_series_result:
  assumes "analyze_time_series parse tm tp = Inr r"
  obtains lt lx vt vx sk med i j where
    "py_len tm = Inr lt" "py_len tp = Inr lx" "lt \<noteq> 0" "lx \<noteq> 0"
    "validate_pairs parse tm tp [0..<min lt lx] ([], [], 0) = Inr (vt, vx, sk)"
    "vx \<noteq> []" "length vt = length vx" "length vx + sk = min lt lx"
    "calculate_median vx = Inr med"
    "py_index vx (Min (set vx)) = Inr i" "py_index vx (Max (set vx)) = Inr j"
    "r = \<lparr> median = med,
           stddev = (if length vx < 2 then None
                     else Some (sqrt (statistics_ss vx / real (length vx - 1)))),
           min_temp = Min (set vx), min_time = vt ! i,
           max_temp = Max (set vx), max_time = vt ! j,
           average = sum_list vx / real (length vx),
           truncated = (lt \<noteq> lx), warnings = expected_warnings lt lx sk,
           count = length vx \<rparr>"
proof -
  from assms obtain lt lx vt vx sk where
    h: "py_len tm = Inr lt" "py_len tp = Inr lx" "lt \<noteq> 0" "lx \<noteq> 0"
       "validate_pairs parse tm tp [0..<min lt lx] ([], [], 0) = Inr (vt, vx, sk)" "vx \<noteq> []"
    and c: "compute_metrics vt vx (lt \<noteq> lx) (expected_warnings lt lx sk) = Inr r"
    unfolding analyze_time_series_Inr by blast
  have l: "length vt = length vx" "length vx + sk = min lt lx"
    using validate_pairs_same_length[OF h(5)] by simp_all
  from compute_metrics_Inr[OF h(6) l(1) c] obtain med i j where
    "calculate_median vx = Inr med"
    "py_index vx (Min (set vx)) = Inr i" "py_index vx (Max (set vx)) = Inr j"
    "r = \<lparr> median = med,
           stddev = (if length vx < 2 then None
                     else Some (sqrt (statistics_ss vx / real (length vx - 1)))),
           min_temp = Min (set vx), min_time = vt ! i,
           max_temp = Max (set vx), max_time = vt ! j,
           average = sum_list vx / real (length vx),
           truncated = (lt \<noteq> lx), warnings = expected_warnings lt lx sk,
           count = length vx \<rparr>"
    by auto
  with h l that show thesis by blast
qed

lemma sample_stdev_eq: "xs \<noteq> [] \<Longrightarrow> sqrt (statistics_ss xs / real (length xs - 1)) = bessel_stdev xs"
  by (simp add: statistics_ss_deviations bessel_stdev_def)

lemma sqrt_less_float_overflow_bound:
  assumes "x < 2 ^ 1000"
  shows "sqrt x < real_of_int float_overflow_bound"
proof -
  have b: "(2::real) ^ 1000 < real_of_int float_overflow_bound"
    by (simp add: float_overflow_bound_def)
  show ?thesis
  proof (cases "x \<le> 1")
    case True
    then have "sqrt x \<le> 1" by simp
    moreover have "(1::real) < 2 ^ 1000" by simp
    ultimately show ?thesis using b by linarith
  next
    case False
    then have "1 < sqrt x" by simp
    then have "sqrt x * 1 < sqrt x * sqrt x" by (intro mult_strict_left_mono) simp_all
    then have "sqrt x < x" using False by simp
    then show ?thesis using assms b by linarith
  qed
qed

lemma stdev_representableI:
  "statistics_ss xs / real (length xs - 1) < 2 ^ 1000 \<Longrightarrow> stdev_representable xs"
  by (simp add: stdev_representable_def sqrt_less_float_overflow_bound)

section \<open>Errors of the loop and what the loop reads\<close>

lemma py_getitem_no_weather_error: "py_getitem v i \<noteq> Inl (WeatherAnalysisError m)"
  by (cases v) auto

lemma py_float_no_weather_error: "py_float parse v \<noteq> Inl (WeatherAnalysisError m)"
  by (cases v) (auto split: option.splits)

lemma validate_pairs_cong:
  assumes "\<forall>i\<in>set ixs. py_getitem tm i = py_getitem tm' i \<and>
             (py_getitem tp i = py_getitem tp' i \<or>
              (py_getitem tm i = Inr PNone \<and> (\<exists>a. py_getitem tp i = Inr a) \<and>
               (\<exists>b. py_getitem tp' i = Inr b)))"
  shows "validate_pairs parse tm tp ixs st = validate_pairs parse tm' tp' ixs st"
  using assms
proof (induction ixs arbitrary: st)
  case Nil
  then show ?case by simp
next
  case (Cons i ixs)
  obtain vt vx sk where st: "st = (vt, vx, sk)" by (cases st)
  have p: "\<forall>i\<in>set ixs. py_getitem tm i = py_getitem tm' i \<and>
             (py_getitem tp i = py_getitem tp' i \<or>
              (py_getitem tm i = Inr PNone \<and> (\<exists>a. py_getitem tp i = Inr a) \<and>
               (\<exists>b. py_getitem tp' i = Inr b)))"
    by (intro ballI bspec[OF Cons.prems]) simp
  have ih: "\<And>s. validate_pairs parse tm tp ixs s = validate_pairs parse tm' tp' ixs s"
    by (rule Cons.IH[OF p])
  have hd0: "py_getitem tm i = py_getitem tm' i \<and>
             (py_getitem tp i = py_getitem tp' i \<or>
              (py_getitem tm i = Inr PNone \<and> (\<exists>a. py_getitem tp i = Inr a) \<and>
               (\<exists>b. py_getitem tp' i = Inr b)))"
    by (rule bspec[OF Cons.prems]) simp
  have hd: "py_getitem tm i = py_getitem tm' i"
    "py_getitem tp i = py_getitem tp' i \<or>
              (py_getitem tm i = Inr PNone \<and> (\<exists>a. py_getitem tp i = Inr a) \<and>
               (\<exists>b. py_getitem tp' i = Inr b))"
    using hd0 by blast+
  from hd(2) show ?case
  proof
    assume "py_getitem tp i = py_getitem tp' i"
    with hd(1) show ?thesis unfolding st by (simp add: ih split: sum.splits)
  next
    assume "py_getitem tm i = Inr PNone \<and> (\<exists>a. py_getitem tp i = Inr a) \<and>
               (\<exists>b. py_getitem tp' i = Inr b)"
    then obtain a b where g: "py_getitem tm i = Inr PNone" "py_getitem tp i = Inr a"
      "py_getitem tp' i = Inr b" by blast
    have g': "py_getitem tm' i = Inr PNone" using hd(1) g(1) by simp
    show ?thesis unfolding st by (simp add: g g' ih)
  qed
qed

lemma validate_pairs_weather_error:
  "validate_pairs parse tm tp ixs st = Inl (WeatherAnalysisError m) \<Longrightarrow>
   \<exists>i v t. m = Invalid_temperature_value_at_index i v \<and> i \<in> set ixs \<and>
     py_getitem tm i = Inr t \<and> t \<noteq> PNone \<and> py_getitem tp i = Inr v \<and> v \<noteq> PNone \<and>
     (py_float parse v = Inl TypeError \<or> py_float parse v = Inl ValueError)"
proof (induction ixs arbitrary: st)
  case Nil
  then show ?case by simp
next
  case (Cons i ixs)
  obtain vt vx sk where st: "st = (vt, vx, sk)" by (cases st)
  show ?case
    using Cons.prems Cons.IH unfolding st
    by (fastforce simp: py_getitem_no_weather_error py_float_no_weather_error
        split: sum.splits if_splits)
qed

lemma analyze_time_series_no_valid:
  assumes "py_len tm = Inr lt" "py_len tp = Inr lx" "lt \<noteq> 0" "lx \<noteq> 0"
    and "validate_pairs parse tm tp [0..<min lt lx] ([], [], 0) = Inr (vt, [], sk)"
  shows "analyze_time_series parse tm tp =
           Inl (WeatherAnalysisError
             (Msg ''No valid time/temperature pairs available after validation.''))"
proof -
  have "tm \<noteq> PNone" "tp \<noteq> PNone" using assms(1,2) by auto
  then show ?thesis using assms
    unfolding analyze_time_series_def reconcile_def Let_def
    by (simp split: sum.splits prod.splits)
qed

lemma analyze_time_series_weather_error:
  assumes "analyze_time_series parse tm tp =
             Inl (WeatherAnalysisError (Invalid_temperature_value_at_index i v))"
  shows "\<exists>lt lx t. py_len tm = Inr lt \<and> py_len tp = Inr lx \<and> i < min lt lx \<and>
           py_getitem tm i = Inr t \<and> t \<noteq> PNone \<and> py_getitem tp i = Inr v \<and> v \<noteq> PNone \<and>
           (py_float parse v = Inl TypeError \<or> py_float parse v = Inl ValueError)"
proof -
  have no: "compute_metrics vt vx tr ws \<noteq> Inl (WeatherAnalysisError e)"
    if "validate_pairs parse tm tp ixs ([], [], 0) = Inr (vt, vx, sk)" "vx \<noteq> []"
    for vt vx sk tr ws e ixs
    using compute_metrics_Inl[OF that(2), of vt tr ws] validate_pairs_same_length[OF that(1)]
    by auto
  from assms obtain lt lx where
    l: "py_len tm = Inr lt" "py_len tp = Inr lx"
    and v: "validate_pairs parse tm tp [0..<min lt lx] ([], [], 0) =
         Inl (WeatherAnalysisError (Invalid_temperature_value_at_index i v))"
    unfolding analyze_time_series_def reconcile_def Let_def
    by (auto split: sum.splits prod.splits if_splits dest: no)
  from validate_pairs_weather_error[OF v] l show ?thesis by auto
qed

lemma length_warning_not_skipped: "length_warning a b \<noteq> skipped_warning k"
  by (simp add: length_warning_def skipped_warning_def)

lemma analyze_time_series_cong:
  assumes "py_len tm = Inr lt" "py_len tm' = Inr lt" "py_len tp = Inr lx" "py_len tp' = Inr lx"
    and "\<forall>i<min lt lx. py_getitem tm i = py_getitem tm' i \<and>
             (py_getitem tp i = py_getitem tp' i \<or>
              (py_getitem tm i = Inr PNone \<and> (\<exists>a. py_getitem tp i = Inr a) \<and>
               (\<exists>b. py_getitem tp' i = Inr b)))"
  shows "analyze_time_series parse tm tp = analyze_time_series parse tm' tp'"
proof -
  have n: "tm \<noteq> PNone" "tm' \<noteq> PNone" "tp \<noteq> PNone" "tp' \<noteq> PNone"
    using assms(1-4) by auto
  have "\<forall>i\<in>set [0..<min lt lx]. py_getitem tm i = py_getitem tm' i \<and>
             (py_getitem tp i = py_getitem tp' i \<or>
              (py_getitem tm i = Inr PNone \<and> (\<exists>a. py_getitem tp i = Inr a) \<and>
               (\<exists>b. py_getitem tp' i = Inr b)))"
  proof (intro ballI)
    fix i assume "i \<in> set [0..<min lt lx]"
    then have "i < min lt lx" by simp
    with assms(5) show "py_getitem tm i = py_getitem tm' i \<and>
             (py_getitem tp i = py_getitem tp' i \<or>
              (py_getitem tm i = Inr PNone \<and> (\<exists>a. py_getitem tp i = Inr a) \<and>
               (\<exists>b. py_getitem tp' i = Inr b)))" by blast
  qed
  then have "validate_pairs parse tm tp [0..<min lt lx] ([], [], 0) =
             validate_pairs parse tm' tp' [0..<min lt lx] ([], [], 0)"
    by (rule validate_pairs_cong)
  then have "reconcile parse tm tp lt lx = reconcile parse tm' tp' lt lx"
    unfolding reconcile_def Let_def by simp
  then show ?thesis
    unfolding analyze_time_series_def by (simp add: n assms(1-4))
qed

lemma sequence_items_not_None: "sequence_items v = Some xs \<Longrightarrow> v \<noteq> PNone"
  by (cases v) auto

lemma coercible_iff: "coercible parse v \<longleftrightarrow> numeric parse v \<and> in_float_range v"
  by (cases v) (auto simp: coercible_def split: option.splits)

lemma validate_pairs_append:
  "validate_pairs parse tm tp (as @ bs) st =
     (case validate_pairs parse tm tp as st of
        Inl e \<Rightarrow> Inl e
      | Inr st' \<Rightarrow> validate_pairs parse tm tp bs st')"
proof (induction as arbitrary: st)
  case Nil
  then show ?case by simp
next
  case (Cons i as)
  obtain vt vx sk where st: "st = (vt, vx, sk)" by (cases st)
  show ?case unfolding st by (simp add: Cons.IH split: sum.splits)
qed

lemma analyze_time_series_loop_error:
  assumes "py_len tm = Inr lt" "py_len tp = Inr lx" "lt \<noteq> 0" "lx \<noteq> 0"
    and "validate_pairs parse tm tp [0..<min lt lx] ([], [], 0) = Inl e"
  shows "analyze_time_series parse tm tp = Inl e"
proof -
  have "tm \<noteq> PNone" "tp \<noteq> PNone" using assms(1,2) by auto
  then show ?thesis using assms
    unfolding analyze_time_series_def reconcile_def Let_def by simp
qed

lemma invalid_temperature_is_fatal:
  assumes "sequence_items tm = Some ts" "sequence_items tp = Some xs"
    and "i < min (length ts) (length xs)"
    and "present ts xs i"
    and "py_float parse (xs ! i) = Inl TypeError \<or> py_float parse (xs ! i) = Inl ValueError"
    and "\<forall>j<i. present ts xs j \<longrightarrow> coercible parse (xs ! j)"
  shows "analyze_time_series parse tm tp =
           Inl (WeatherAnalysisError (Invalid_temperature_value_at_index i (xs ! i)))"
proof -
  let ?n = "min (length ts) (length xs)"
  have "[0..<i + (?n - i)] = [0..<i] @ [i..<i + (?n - i)]"
    by (rule upt_add_eq_append) simp
  then have split: "[0..<?n] = [0..<i] @ i # [Suc i..<?n]"
    using assms(3) by (simp add: upt_conv_Cons)
  obtain st where st: "validate_pairs parse tm tp [0..<i] ([], [], 0) = Inr st"
    using validate_pairs_ok[OF assms(1,2), of "[0..<i]" parse "[]" "[]" 0] assms(3,6) by auto
  obtain vt vx sk where s: "st = (vt, vx, sk)" by (cases st)
  have gi: "py_getitem tm i = Inr (ts ! i)" "py_getitem tp i = Inr (xs ! i)"
    using assms(1,2,3) by (simp_all add: sequence_items_getitem)
  have "validate_pairs parse tm tp (i # [Suc i..<?n]) (vt, vx, sk) =
          Inl (WeatherAnalysisError (Invalid_temperature_value_at_index i (xs ! i)))"
    using assms(4,5) gi by (auto simp: present_def)
  then have "validate_pairs parse tm tp [0..<?n] ([], [], 0) =
          Inl (WeatherAnalysisError (Invalid_temperature_value_at_index i (xs ! i)))"
    unfolding split validate_pairs_append st s by simp
  moreover have "length ts \<noteq> 0" "length xs \<noteq> 0" using assms(3) by auto
  ultimately show ?thesis
    using analyze_time_series_loop_error[OF sequence_items_len[OF assms(1)]
        sequence_items_len[OF assms(2)]] by blast
qed

lemma invalid_temperature_abc:
  assumes "parse ''abc'' = None"
  shows "analyze_time_series parse (PList [PStr ''t0'']) (PList [PStr ''abc'']) =
           Inl (WeatherAnalysisError (Invalid_temperature_value_at_index 0 (PStr ''abc'')))"
  using assms by (simp add: analyze_time_series_def reconcile_def)

section \<open>The decimal rendering of the warnings\<close>

lemma digit_char_digit:
  assumes "d < 10"
  shows "digit_char d \<in> set ''0123456789'' \<and> of_char (digit_char d) - 48 = d"
proof -
  from assms have "d = 0 \<or> d = 1 \<or> d = 2 \<or> d = 3 \<or> d = 4 \<or> d = 5 \<or> d = 6 \<or> d = 7 \<or> d = 8 \<or> d = 9"
    by arith
  then show ?thesis
    by (elim disjE) (simp_all add: digit_char_def)
qed

lemma str_nat_digits:
  "str_nat n \<noteq> [] \<and> list_all (\<lambda>c. c \<in> set ''0123456789'') (str_nat n) \<and>
   foldl (\<lambda>a c. 10 * a + (of_char c - 48)) 0 (str_nat n) = n"
proof (induction n rule: str_nat.induct)
  case (1 n)
  show ?case
  proof (cases "n < 10")
    case True
    then show ?thesis
      using digit_char_digit[of n] by (simp add: str_nat.simps[of n])
  next
    case False
    have d: "n mod 10 < 10" by simp
    from False "1.IH" digit_char_digit[OF d] show ?thesis
      by (simp add: str_nat.simps[of n])
  qed
qed

lemma decimal_value_str_nat: "decimal_value (str_nat n) = Some n"
  using str_nat_digits[of n] by (simp add: decimal_value_def)

lemma str_nat_1: "str_nat (Suc 0) = ''1''"
  by (simp add: str_nat.simps[of "Suc 0"] digit_char_def)

lemma str_nat_2: "str_nat (Suc (Suc 0)) = ''2''"
  by (simp add: str_nat.simps[of "Suc (Suc 0)"] digit_char_def)

lemma str_nat_3: "str_nat (Suc (Suc (Suc 0))) = ''3''"
  by (simp add: str_nat.simps[of "Suc (Suc (Suc 0))"] digit_char_def)

section \<open>Data whose standard deviation is not a float\<close>

lemma wide_data_not_representable:
  "\<not> stdev_representable [real_of_int (3 * 2 ^ 1022), real_of_int (- (3 * 2 ^ 1022))]"
proof -
  let ?xs = "[real_of_int (3 * 2 ^ 1022), real_of_int (- (3 * 2 ^ 1022))]"
  have e: "statistics_ss ?xs / real (length ?xs - 1) = 18 * 2 ^ 2044"
    by (simp add: statistics_ss_def)
  have "(real_of_int float_overflow_bound)\<^sup>2 \<le> 18 * 2 ^ 2044"
    by (simp add: float_overflow_bound_def power2_eq_square)
  then have "real_of_int float_overflow_bound \<le> sqrt (18 * 2 ^ 2044)"
    by (rule real_le_rsqrt)
  then have r: "real_of_int float_overflow_bound \<le> sqrt (statistics_ss ?xs / real (length ?xs - 1))"
    by (simp only: e)
  have l: "\<not> length ?xs < 2" by simp
  show ?thesis
    unfolding stdev_representable_def using l r by (blast dest: leD)
qed

lemma wide_data_coercible:
  "py_float parse (PInt (3 * 2 ^ 1022)) = Inr (real_of_int (3 * 2 ^ 1022))"
  "py_float parse (PInt (- (3 * 2 ^ 1022))) = Inr (real_of_int (- (3 * 2 ^ 1022)))"
  by (simp_all add: float_overflow_bound_def)

lemma validate_pairs_two:
  assumes "py_float parse x = Inr a" "py_float parse z = Inr c"
    and "x \<noteq> PNone" "z \<noteq> PNone" "t0 \<noteq> PNone" "t1 \<noteq> PNone"
  shows "validate_pairs parse (PList [t0, t1]) (PList [x, z]) [0..<min 2 2] ([], [], 0) =
           Inr ([t0, t1], [a, c], 0)"
  using assms by (simp add: upt_rec)

lemma validate_pairs_middle_skipped:
  assumes "py_float parse x = Inr a" "py_float parse z = Inr c"
    and "x \<noteq> PNone" "z \<noteq> PNone" "t0 \<noteq> PNone" "t2 \<noteq> PNone"
  shows "validate_pairs parse (PList [t0, t1, t2]) (PList [x, PNone, z]) [0..<min 3 3] ([], [], 0) =
           Inr ([t0, t2], [a, c], 1)"
  using assms by (simp add: upt_rec)

section \<open>What a returned result says about the pairs\<close>

lemma validate_pairs_Inr_coercible:
  assumes "sequence_items tm = Some ts" "sequence_items tp = Some xs"
    and "\<forall>i\<in>set ixs. i < length ts \<and> i < length xs"
    and "validate_pairs parse tm tp ixs st = Inr st'"
  shows "\<forall>i\<in>set ixs. present ts xs i \<longrightarrow> coercible parse (xs ! i)"
  using assms(3,4)
proof (induction ixs arbitrary: st)
  case Nil
  then show ?case by simp
next
  case (Cons i ixs)
  obtain vt vx sk where st: "st = (vt, vx, sk)" by (cases st)
  have r: "i < length ts \<and> i < length xs" "\<forall>j\<in>set ixs. j < length ts \<and> j < length xs"
    using Cons.prems(1) by simp_all
  have gi: "py_getitem tm i = Inr (ts ! i)" "py_getitem tp i = Inr (xs ! i)"
    using r(1) assms(1,2) by (simp_all add: sequence_items_getitem)
  show ?case
  proof (cases "present ts xs i")
    case False
    then have "validate_pairs parse tm tp ixs (vt, vx, sk + 1) = Inr st'"
      using Cons.prems(2) gi unfolding st by (auto simp: present_def)
    from Cons.IH[OF r(2) this] False show ?thesis by simp
  next
    case True
    show ?thesis
    proof (cases "py_float parse (xs ! i)")
      case (Inl e)
      then have False using Cons.prems(2) gi True unfolding st
        by (auto simp: present_def split: if_splits)
      then show ?thesis ..
    next
      case (Inr a)
      then have c: "coercible parse (xs ! i)" by (simp add: coercible_def)
      have "validate_pairs parse tm tp ixs (vt @ [ts ! i], vx @ [a], sk) = Inr st'"
        using Cons.prems(2) gi True Inr unfolding st by (simp add: present_def)
      from Cons.IH[OF r(2) this] c show ?thesis by simp
    qed
  qed
qed

lemma returned_result_counts:
  assumes "sequence_items tm = Some ts" "sequence_items tp = Some xs"
    and "analyze_time_series parse tm tp = Inr r"
    and "n = min (length ts) (length xs)"
    and "k = length (filter (\<lambda>i. \<not> present ts xs i) [0..<n])"
  shows "count r = n - k \<and> k < n \<and> truncated r = (length ts \<noteq> length xs) \<and>
         warnings r =
           (if length ts \<noteq> length xs
            then [''Input lengths differ: times='' @ str_nat (length ts) @ '', temperatures='' @
                  str_nat (length xs) @ ''; truncated to shorter length.'']
            else []) @
           (if k \<noteq> 0
            then [''Skipped '' @ str_nat k @ '' pair(s) where time or temperature was missing.'']
            else [])"
proof -
  from assms(3) obtain lt lx vt vx sk med i j where
    h: "py_len tm = Inr lt" "py_len tp = Inr lx"
       "validate_pairs parse tm tp [0..<min lt lx] ([], [], 0) = Inr (vt, vx, sk)" "vx \<noteq> []"
    and r: "r = \<lparr> median = med,
           stddev = (if length vx < 2 then None
                     else Some (sqrt (statistics_ss vx / real (length vx - 1)))),
           min_temp = Min (set vx), min_time = vt ! i,
           max_temp = Max (set vx), max_time = vt ! j,
           average = sum_list vx / real (length vx),
           truncated = (lt \<noteq> lx), warnings = expected_warnings lt lx sk,
           count = length vx \<rparr>"
    by (rule analyze_time_series_result)
  have l: "lt = length ts" "lx = length xs"
    using h(1,2) assms(1,2) by (simp_all add: sequence_items_len)
  have v: "validate_pairs parse tm tp [0..<n] ([], [], 0) = Inr (vt, vx, sk)"
    using h(3) unfolding l assms(4) .
  have b: "\<forall>i\<in>set [0..<n]. i < length ts \<and> i < length xs"
    unfolding assms(4) by simp
  have c: "\<forall>i\<in>set [0..<n]. present ts xs i \<longrightarrow> coercible parse (xs ! i)"
    by (rule validate_pairs_Inr_coercible[OF assms(1,2) b v])
  have "validate_pairs parse tm tp [0..<n] ([], [], 0) =
         Inr ([] @ map (\<lambda>i. ts ! i) (filter (present ts xs) [0..<n]),
              [] @ map (\<lambda>i. float_value parse (xs ! i)) (filter (present ts xs) [0..<n]),
              0 + length (filter (\<lambda>i. \<not> present ts xs i) [0..<n]))"
    by (rule validate_pairs_ok[OF assms(1,2) b c])
  with v have e: "vx = map (\<lambda>i. float_value parse (xs ! i)) (filter (present ts xs) [0..<n])"
    "sk = k"
    unfolding assms(5) by simp_all
  have "length (filter (present ts xs) [0..<n]) + k = length [0..<n]"
    unfolding assms(5) by (rule sum_length_filter_compl)
  then have len: "length vx + k = n" unfolding e(1) by simp
  have "0 < length vx" using h(4) by simp
  with len have kn: "k < n" "length vx = n - k" by arith+
  have "count r = length vx" "truncated r = (length ts \<noteq> length xs)"
    "warnings r = expected_warnings (length ts) (length xs) k"
    by (simp_all add: r l e(2))
  with kn show ?thesis
    by (simp add: expected_warnings_def length_warning_def skipped_warning_def)
qed

section \<open>A run of the model\<close>

text \<open>
  \<^verbatim>\<open>times=["t0","t1","t2"]\<close>, \<^verbatim>\<open>temperatures=[10.0, None, 30.0]\<close>: the middle pair is skipped,
  two pairs are analysed, and the standard deviation is the root of 200, about 14.14.
\<close>

lemma scenario_skipped_pair:
  "analyze_time_series parse (PList [PStr ''t0'', PStr ''t1'', PStr ''t2''])
      (PList [PFloat 10, PNone, PFloat 30]) =
     Inr \<lparr> median = Some 20, stddev = Some (sqrt 200),
           min_temp = 10, min_time = PStr ''t0'', max_temp = 30, max_time = PStr ''t2'',
           average = 20, truncated = False,
           warnings = [''Skipped 1 pair(s) where time or temperature was missing.''],
           count = 2 \<rparr>"
proof -
  have s: "sqrt 200 < real_of_int float_overflow_bound"
    by (rule sqrt_less_float_overflow_bound) simp
  show ?thesis
    by (simp add: analyze_time_series_def reconcile_def upt_rec compute_metrics_def
      calculate_median_def statistics_median_def calculate_standard_deviation_def
      statistics_stdev_def statistics_ss_def list_getitem_def skipped_warning_def str_nat_1 s)
qed

section \<open>Shape of the arguments\<close>

text \<open>
  C3 (the code departs from it): an argument that is not a proper sequence should make the
  call fail with \<^verbatim>\<open>WeatherAnalysisError\<close>. The only guard is the \<^verbatim>\<open>try\<close> around the two calls of
  \<^verbatim>\<open>len\<close>; a set has a length, so it passes the guard, and the unguarded \<^verbatim>\<open>times[i]\<close> of
  line 86 then raises \<^verbatim>\<open>TypeError\<close> out of the function.
\<close>

theorem set_argument_raises_TypeError:
  "analyze_time_series parse (PSet [PStr ''t0'']) (PList [PFloat 20]) = Inl TypeError"
  by (simp add: analyze_time_series_def reconcile_def)

section \<open>Temperatures that do not coerce\<close>

text \<open>
  C2 (the code departs from it): a temperature that \<^verbatim>\<open>float\<close> cannot convert should end the
  call with a \<^verbatim>\<open>WeatherAnalysisError\<close> naming the index and the value. Line 94 catches
  \<^verbatim>\<open>TypeError\<close> and \<^verbatim>\<open>ValueError\<close> only: an integer beyond the range of a double makes
  \<^verbatim>\<open>float\<close> raise \<^verbatim>\<open>OverflowError\<close>, which leaves the function as it is, here before the
  loop reaches the \<^verbatim>\<open>"abc"\<close> at index 1. (Where \<^verbatim>\<open>float\<close> raises one of the two caught
  exceptions at the first offending index, the call does end as the claim says:
  \<open>invalid_temperature_is_fatal\<close>.)
\<close>

theorem huge_int_temperature_raises_OverflowError:
  "analyze_time_series parse (PList [PStr ''t0'', PStr ''t1''])
      (PList [PInt (10 ^ 400), PStr ''abc'']) = Inl OverflowError"
  by (simp add: analyze_time_series_def reconcile_def float_overflow_bound_def upt_rec)

section \<open>Warnings\<close>



section \<open>Metrics\<close>

text \<open>
  C7: in a successful result \<open>stddev\<close> is the Bessel-corrected sample standard deviation
  (divisor \<open>n - 1\<close>) of the surviving temperatures when at least two survive, and \<^verbatim>\<open>None\<close>
  when exactly one does; a single surviving pair never makes the call fail.
\<close>

theorem stddev_sample_or_none:
  "(analyze_time_series parse tm tp = Inr r \<longrightarrow>
      (\<exists>lt lx vt vx sk. py_len tm = Inr lt \<and> py_len tp = Inr lx \<and>
         validate_pairs parse tm tp [0..<min lt lx] ([], [], 0) = Inr (vt, vx, sk) \<and>
         count r = length vx \<and> 1 \<le> count r \<and>
         (count r = 1 \<longrightarrow> stddev r = None) \<and>
         (2 \<le> count r \<longrightarrow> stddev r = Some (bessel_stdev vx)))) \<and>
   (py_len tm = Inr lt' \<and> py_len tp = Inr lx' \<and> lt' \<noteq> 0 \<and> lx' \<noteq> 0 \<and>
    validate_pairs parse tm tp [0..<min lt' lx'] ([], [], 0) = Inr (vt', [x], sk') \<longrightarrow>
      (\<exists>r'. analyze_time_series parse tm tp = Inr r' \<and> count r' = 1 \<and> stddev r' = None))"
proof (intro conjI impI)
  assume "analyze_time_series parse tm tp = Inr r"
  then obtain lt lx vt vx sk med i j where
    h: "py_len tm = Inr lt" "py_len tp = Inr lx"
       "validate_pairs parse tm tp [0..<min lt lx] ([], [], 0) = Inr (vt, vx, sk)" "vx \<noteq> []"
    and r: "r = \<lparr> median = med,
           stddev = (if length vx < 2 then None
                     else Some (sqrt (statistics_ss vx / real (length vx - 1)))),
           min_temp = Min (set vx), min_time = vt ! i,
           max_temp = Max (set vx), max_time = vt ! j,
           average = sum_list vx / real (length vx),
           truncated = (lt \<noteq> lx), warnings = expected_warnings lt lx sk,
           count = length vx \<rparr>"
    by (rule analyze_time_series_result)
  have s: "sqrt (statistics_ss vx / real (length vx - 1)) = bessel_stdev vx"
    using h(4) by (rule sample_stdev_eq)
  have r': "count r = length vx" "stddev r = (if length vx < 2 then None else Some (bessel_stdev vx))"
    unfolding r s by simp_all
  have "1 \<le> length vx" using h(4) by (cases vx) simp_all
  then have "count r = length vx \<and> 1 \<le> count r \<and>
         (count r = 1 \<longrightarrow> stddev r = None) \<and>
         (2 \<le> count r \<longrightarrow> stddev r = Some (bessel_stdev vx))"
    by (simp add: r')
  with h(1,2,3) show "\<exists>lt lx vt vx sk. py_len tm = Inr lt \<and> py_len tp = Inr lx \<and>
         validate_pairs parse tm tp [0..<min lt lx] ([], [], 0) = Inr (vt, vx, sk) \<and>
         count r = length vx \<and> 1 \<le> count r \<and>
         (count r = 1 \<longrightarrow> stddev r = None) \<and>
         (2 \<le> count r \<longrightarrow> stddev r = Some (bessel_stdev vx))"
    by blast
next
  assume a: "py_len tm = Inr lt' \<and> py_len tp = Inr lx' \<and> lt' \<noteq> 0 \<and> lx' \<noteq> 0 \<and>
    validate_pairs parse tm tp [0..<min lt' lx'] ([], [], 0) = Inr (vt', [x], sk')"
  have "\<exists>med i j. calculate_median [x] = Inr med \<and>
           py_index [x] (Min (set [x])) = Inr i \<and> py_index [x] (Max (set [x])) = Inr j \<and>
           analyze_time_series parse tm tp =
             Inr \<lparr> median = med,
                   stddev = (if length [x] < 2 then None
                             else Some (sqrt (statistics_ss [x] / real (length [x] - 1)))),
                   min_temp = Min (set [x]), min_time = vt' ! i,
                   max_temp = Max (set [x]), max_time = vt' ! j,
                   average = sum_list [x] / real (length [x]),
                   truncated = (lt' \<noteq> lx'), warnings = expected_warnings lt' lx' sk',
                   count = length [x] \<rparr>"
    using a by (intro analyze_time_series_returns) (simp_all add: stdev_representable_def)
  then show "\<exists>r'. analyze_time_series parse tm tp = Inr r' \<and> count r' = 1 \<and> stddev r' = None"
    by auto
qed


theorem stddev_sample_or_none_witness:
  "(\<exists>r. analyze_time_series parse_unsigned
           (PList [PStr ''t0'', PStr ''t1'']) (PList [PFloat 10, PFloat 30]) = Inr r \<and>
        count r = 2 \<and> stddev r = Some (bessel_stdev [10, 30])) \<and>
   (\<exists>r'. analyze_time_series parse_unsigned (PList [PStr ''t0'']) (PList [PStr ''21'']) = Inr r' \<and>
        count r' = 1 \<and> stddev r' = None)"
proof
  let ?tm = "PList [PStr ''t0'', PStr ''t1'']" and ?tp = "PList [PFloat 10, PFloat 30]"
  have v: "validate_pairs parse_unsigned ?tm ?tp [0..<min 2 2] ([], [], 0) =
             Inr ([PStr ''t0'', PStr ''t1''], [10, 30], 0)"
    by (simp add: upt_rec)
  have rep: "stdev_representable [10, 30]"
    by (rule stdev_representableI) (simp add: statistics_ss_def)
  obtain r where r: "analyze_time_series parse_unsigned ?tm ?tp = Inr r"
    using analyze_time_series_returns[of ?tm 2 ?tp 2, OF _ _ _ _ v _ rep] by auto
  from stddev_sample_or_none[of parse_unsigned ?tm ?tp r] r v
  have "count r = 2 \<and> stddev r = Some (bessel_stdev [10, 30])" by auto
  with r show "\<exists>r. analyze_time_series parse_unsigned ?tm ?tp = Inr r \<and>
        count r = 2 \<and> stddev r = Some (bessel_stdev [10, 30])" by blast
next
  let ?tm = "PList [PStr ''t0'']" and ?tp = "PList [PStr ''21'']"
  have v: "validate_pairs parse_unsigned ?tm ?tp [0..<min 1 1] ([], [], 0) =
             Inr ([PStr ''t0''], [21], 0)"
    by (simp add: upt_rec parse_unsigned_def)
  from stddev_sample_or_none[of parse_unsigned ?tm ?tp _ 1 1 "[PStr ''t0'']" 21 0] v
  show "\<exists>r'. analyze_time_series parse_unsigned ?tm ?tp = Inr r' \<and> count r' = 1 \<and> stddev r' = None"
    by simp
qed

text \<open>
  C6: in a successful result \<open>min\<close> and \<open>max\<close> are the least and the greatest surviving
  temperature, and \<open>min_time\<close>, \<open>max_time\<close> are the times at the first position where the
  list of surviving temperatures holds that value; the pairs \<open>(A, 5.0), (B, 5.0)\<close> give
  5.0 twice and the time \<open>A\<close> twice.
\<close>

theorem extremes_first_occurrence:
  "(analyze_time_series parse tm tp = Inr r \<longrightarrow>
      (\<exists>lt lx vt vx sk i j. py_len tm = Inr lt \<and> py_len tp = Inr lx \<and>
         validate_pairs parse tm tp [0..<min lt lx] ([], [], 0) = Inr (vt, vx, sk) \<and>
         length vt = length vx \<and>
         min_temp r = Min (set vx) \<and> max_temp r = Max (set vx) \<and>
         i < length vx \<and> vx ! i = min_temp r \<and> (\<forall>k<i. vx ! k \<noteq> min_temp r) \<and>
         min_time r = vt ! i \<and>
         j < length vx \<and> vx ! j = max_temp r \<and> (\<forall>k<j. vx ! k \<noteq> max_temp r) \<and>
         max_time r = vt ! j)) \<and>
   (a \<noteq> PNone \<and> b \<noteq> PNone \<longrightarrow>
      (\<exists>r'. analyze_time_series parse (PList [a, b]) (PList [PFloat 5, PFloat 5]) = Inr r' \<and>
         min_temp r' = 5 \<and> max_temp r' = 5 \<and> min_time r' = a \<and> max_time r' = a))"
proof (intro conjI impI)
  assume "analyze_time_series parse tm tp = Inr r"
  then obtain lt lx vt vx sk med i j where
    h: "py_len tm = Inr lt" "py_len tp = Inr lx"
       "validate_pairs parse tm tp [0..<min lt lx] ([], [], 0) = Inr (vt, vx, sk)"
       "length vt = length vx"
       "py_index vx (Min (set vx)) = Inr i" "py_index vx (Max (set vx)) = Inr j"
    and r: "r = \<lparr> median = med,
           stddev = (if length vx < 2 then None
                     else Some (sqrt (statistics_ss vx / real (length vx - 1)))),
           min_temp = Min (set vx), min_time = vt ! i,
           max_temp = Max (set vx), max_time = vt ! j,
           average = sum_list vx / real (length vx),
           truncated = (lt \<noteq> lx), warnings = expected_warnings lt lx sk,
           count = length vx \<rparr>"
    by (rule analyze_time_series_result)
  have f: "min_temp r = Min (set vx)" "max_temp r = Max (set vx)"
    "min_time r = vt ! i" "max_time r = vt ! j"
    by (simp_all add: r)
  have "i < length vx \<and> vx ! i = min_temp r \<and> (\<forall>k<i. vx ! k \<noteq> min_temp r)"
    "j < length vx \<and> vx ! j = max_temp r \<and> (\<forall>k<j. vx ! k \<noteq> max_temp r)"
    using h(5,6) unfolding f py_index_first by simp_all
  with h(1-4) f show "\<exists>lt lx vt vx sk i j. py_len tm = Inr lt \<and> py_len tp = Inr lx \<and>
         validate_pairs parse tm tp [0..<min lt lx] ([], [], 0) = Inr (vt, vx, sk) \<and>
         length vt = length vx \<and>
         min_temp r = Min (set vx) \<and> max_temp r = Max (set vx) \<and>
         i < length vx \<and> vx ! i = min_temp r \<and> (\<forall>k<i. vx ! k \<noteq> min_temp r) \<and>
         min_time r = vt ! i \<and>
         j < length vx \<and> vx ! j = max_temp r \<and> (\<forall>k<j. vx ! k \<noteq> max_temp r) \<and>
         max_time r = vt ! j"
    by blast
next
  assume ab: "a \<noteq> PNone \<and> b \<noteq> PNone"
  let ?tm = "PList [a, b]" and ?tp = "PList [PFloat 5, PFloat 5]"
  have v: "validate_pairs parse ?tm ?tp [0..<min 2 2] ([], [], 0) = Inr ([a, b], [5, 5], 0)"
    using ab by (simp add: upt_rec)
  have rep: "stdev_representable [5, 5]"
    by (rule stdev_representableI) (simp add: statistics_ss_def)
  from analyze_time_series_returns[of ?tm 2 ?tp 2, OF _ _ _ _ v _ rep]
  show "\<exists>r'. analyze_time_series parse ?tm ?tp = Inr r' \<and>
         min_temp r' = 5 \<and> max_temp r' = 5 \<and> min_time r' = a \<and> max_time r' = a"
    by auto
qed

theorem extremes_first_occurrence_witness:
  "(\<exists>r. analyze_time_series parse_unsigned
           (PList [PStr ''A'', PStr ''B'', PStr ''C'']) (PList [PFloat 5, PFloat 3, PFloat 3]) = Inr r \<and>
        min_temp r = 3 \<and> max_temp r = 5 \<and> min_time r = PStr ''B'' \<and> max_time r = PStr ''A'') \<and>
   (\<exists>r. analyze_time_series parse_unsigned
           (PList [PStr ''A'', PStr ''B'']) (PList [PFloat 5, PFloat 5]) = Inr r \<and>
        min_temp r = 5 \<and> max_temp r = 5 \<and> min_time r = PStr ''A'' \<and> max_time r = PStr ''A'')"
proof
  let ?tm = "PList [PStr ''A'', PStr ''B'', PStr ''C'']" and ?tp = "PList [PFloat 5, PFloat 3, PFloat 3]"
  have v: "validate_pairs parse_unsigned ?tm ?tp [0..<min 3 3] ([], [], 0) =
             Inr ([PStr ''A'', PStr ''B'', PStr ''C''], [5, 3, 3], 0)"
    by (simp add: upt_rec)
  have rep: "stdev_representable [5, 3, 3]"
    by (rule stdev_representableI) (simp add: statistics_ss_def)
  obtain r where r: "analyze_time_series parse_unsigned ?tm ?tp = Inr r"
    using analyze_time_series_returns[of ?tm 3 ?tp 3, OF _ _ _ _ v _ rep] by auto
  have "\<exists>lt lx vt vx sk i j. py_len ?tm = Inr lt \<and> py_len ?tp = Inr lx \<and>
         validate_pairs parse_unsigned ?tm ?tp [0..<min lt lx] ([], [], 0) = Inr (vt, vx, sk) \<and>
         length vt = length vx \<and>
         min_temp r = Min (set vx) \<and> max_temp r = Max (set vx) \<and>
         i < length vx \<and> vx ! i = min_temp r \<and> (\<forall>k<i. vx ! k \<noteq> min_temp r) \<and>
         min_time r = vt ! i \<and>
         j < length vx \<and> vx ! j = max_temp r \<and> (\<forall>k<j. vx ! k \<noteq> max_temp r) \<and>
         max_time r = vt ! j"
    using extremes_first_occurrence[of parse_unsigned ?tm ?tp r] r by blast
  then obtain lt lx vt vx sk i j where
    l: "py_len ?tm = Inr lt" "py_len ?tp = Inr lx"
    and vv: "validate_pairs parse_unsigned ?tm ?tp [0..<min lt lx] ([], [], 0) = Inr (vt, vx, sk)"
    and m0: "min_temp r = Min (set vx)" "max_temp r = Max (set vx)"
    and i0: "i < length vx" "vx ! i = min_temp r" "\<forall>k<i. vx ! k \<noteq> min_temp r"
      "min_time r = vt ! i"
    and j0: "j < length vx" "vx ! j = max_temp r" "\<forall>k<j. vx ! k \<noteq> max_temp r"
      "max_time r = vt ! j"
    by blast
  have "lt = 3" "lx = 3" using l by simp_all
  with vv v have e: "vt = [PStr ''A'', PStr ''B'', PStr ''C'']" "vx = [5, 3, 3]" by simp_all
  note m = m0[unfolded e] and i = i0[unfolded e] and j = j0[unfolded e]
  have mm: "min_temp r = 3" "max_temp r = 5" using m by simp_all
  have "i = 1" using i(1,2,3) unfolding mm by (auto simp: less_Suc_eq nth_Cons')
  moreover have "j = 0" using j(1,2,3) unfolding mm by (auto simp: less_Suc_eq nth_Cons')
  ultimately have "min_time r = PStr ''B''" "max_time r = PStr ''A''"
    using i(4) j(4) by simp_all
  with r mm show "\<exists>r. analyze_time_series parse_unsigned ?tm ?tp = Inr r \<and>
        min_temp r = 3 \<and> max_temp r = 5 \<and> min_time r = PStr ''B'' \<and> max_time r = PStr ''A''"
    by blast
next
  show "\<exists>r. analyze_time_series parse_unsigned
           (PList [PStr ''A'', PStr ''B'']) (PList [PFloat 5, PFloat 5]) = Inr r \<and>
        min_temp r = 5 \<and> max_temp r = 5 \<and> min_time r = PStr ''A'' \<and> max_time r = PStr ''A''"
    using extremes_first_occurrence[of parse_unsigned _ _ _ "PStr ''A''" "PStr ''B''"]
    by simp
qed

section \<open>Clean input\<close>

text \<open>
  C1 (the code departs from it): non-empty sequences of equal length without \<^verbatim>\<open>None\<close>, with
  numeric temperatures, should make the call return with \<open>count\<close> the common length,
  \<open>truncated\<close> false and no warning. Two numeric inputs on which the call does not return:
  the temperatures \<^verbatim>\<open>[3*2**1022, -3*2**1022]\<close>, both within the range of a float, pass the
  loop, and \<^verbatim>\<open>statistics.stdev\<close> (line 35, called at line 106 outside any \<^verbatim>\<open>try\<close>) raises
  \<^verbatim>\<open>OverflowError\<close>; the temperature \<^verbatim>\<open>10**400\<close> makes \<^verbatim>\<open>float\<close> raise \<^verbatim>\<open>OverflowError\<close>
  at line 93. (Whenever the call does return on such sequences, the result is as the claim
  says: \<open>returned_result_counts\<close>.)
\<close>

theorem numeric_input_raises_OverflowError:
  "numeric parse (PInt (3 * 2 ^ 1022)) \<and> numeric parse (PInt (- (3 * 2 ^ 1022))) \<and>
   coercible parse (PInt (3 * 2 ^ 1022)) \<and> coercible parse (PInt (- (3 * 2 ^ 1022))) \<and>
   analyze_time_series parse (PList [PStr ''a'', PStr ''b''])
      (PList [PInt (3 * 2 ^ 1022), PInt (- (3 * 2 ^ 1022))]) = Inl OverflowError \<and>
   numeric parse (PInt (10 ^ 400)) \<and>
   analyze_time_series parse (PList [PStr ''t0'']) (PList [PInt (10 ^ 400)]) = Inl OverflowError"
proof -
  let ?tm = "PList [PStr ''a'', PStr ''b'']"
  let ?tp = "PList [PInt (3 * 2 ^ 1022), PInt (- (3 * 2 ^ 1022))]"
  have c: "coercible parse (PInt (3 * 2 ^ 1022))" "coercible parse (PInt (- (3 * 2 ^ 1022)))"
    unfolding coercible_def wide_data_coercible by simp_all
  have v: "validate_pairs parse ?tm ?tp [0..<min 2 2] ([], [], 0) =
             Inr ([PStr ''a'', PStr ''b''],
                  [real_of_int (3 * 2 ^ 1022), real_of_int (- (3 * 2 ^ 1022))], 0)"
    by (rule validate_pairs_two[OF wide_data_coercible]) simp_all
  have a: "analyze_time_series parse ?tm ?tp = Inl OverflowError"
    by (rule analyze_time_series_stdev_overflow[of ?tm 2 ?tp 2, OF _ _ _ _ v _
          wide_data_not_representable]) simp_all
  have b: "analyze_time_series parse (PList [PStr ''t0'']) (PList [PInt (10 ^ 400)]) =
             Inl OverflowError"
    by (simp add: analyze_time_series_def reconcile_def float_overflow_bound_def)
  have n: "numeric parse (PInt (3 * 2 ^ 1022))" "numeric parse (PInt (- (3 * 2 ^ 1022)))"
    "numeric parse (PInt (10 ^ 400))"
    by simp_all
  from a b c n show ?thesis by blast
qed

section \<open>Reconciliation\<close>

text \<open>
  C5 (the code departs from it): with \<open>k\<close> pairs missing, \<open>0 < k < n\<close>, and all other
  temperatures coercible, the call should return with \<open>count = n - k\<close> and a skipped-pair
  warning for \<open>k\<close>. For \<^verbatim>\<open>times=["a","b","c"]\<close>, \<^verbatim>\<open>temperatures=[3*2**1022, None, -3*2**1022]\<close>
  the loop skips one pair and coerces the other two, and then \<^verbatim>\<open>statistics.stdev\<close> raises
  \<^verbatim>\<open>OverflowError\<close> out of the function. (Whenever the call does return, \<open>count\<close> and the
  warnings are as the claim says: \<open>returned_result_counts\<close>.)
\<close>

theorem stdev_overflow_after_skipped_pair:
  "coercible parse (PInt (3 * 2 ^ 1022)) \<and> coercible parse (PInt (- (3 * 2 ^ 1022))) \<and>
   validate_pairs parse (PList [PStr ''a'', PStr ''b'', PStr ''c''])
      (PList [PInt (3 * 2 ^ 1022), PNone, PInt (- (3 * 2 ^ 1022))]) [0..<min 3 3] ([], [], 0) =
     Inr ([PStr ''a'', PStr ''c''],
          [real_of_int (3 * 2 ^ 1022), real_of_int (- (3 * 2 ^ 1022))], 1) \<and>
   analyze_time_series parse (PList [PStr ''a'', PStr ''b'', PStr ''c''])
      (PList [PInt (3 * 2 ^ 1022), PNone, PInt (- (3 * 2 ^ 1022))]) = Inl OverflowError"
proof -
  let ?tm = "PList [PStr ''a'', PStr ''b'', PStr ''c'']"
  let ?tp = "PList [PInt (3 * 2 ^ 1022), PNone, PInt (- (3 * 2 ^ 1022))]"
  have c: "coercible parse (PInt (3 * 2 ^ 1022))" "coercible parse (PInt (- (3 * 2 ^ 1022)))"
    unfolding coercible_def wide_data_coercible by simp_all
  have v: "validate_pairs parse ?tm ?tp [0..<min 3 3] ([], [], 0) =
             Inr ([PStr ''a'', PStr ''c''],
                  [real_of_int (3 * 2 ^ 1022), real_of_int (- (3 * 2 ^ 1022))], 1)"
    by (rule validate_pairs_middle_skipped[OF wide_data_coercible]) simp_all
  have "analyze_time_series parse ?tm ?tp = Inl OverflowError"
    by (rule analyze_time_series_stdev_overflow[of ?tm 3 ?tp 3, OF _ _ _ _ v _
          wide_data_not_representable]) simp_all
  with c v show ?thesis by blast
qed

text \<open>
  C4: for two sequences of different lengths a returned result has \<open>truncated\<close> true and
  holds the warning \<^verbatim>\<open>Input lengths differ: times=..., temperatures=...; truncated to shorter
  length.\<close> with the two lengths in decimal; for equal lengths \<open>truncated\<close> is false and no
  warning begins with \<^verbatim>\<open>Input lengths differ\<close>. Only the indices below the shorter length
  are read: two calls whose arguments have the same lengths and agree below the shorter
  length give the same outcome.
\<close>

theorem length_mismatch_truncates:
  assumes "sequence_items tm = Some ts" "sequence_items tp = Some xs"
  shows "(analyze_time_series parse tm tp = Inr r \<longrightarrow>
           (length ts \<noteq> length xs \<longrightarrow>
              truncated r \<and>
              (''Input lengths differ: times='' @ str_nat (length ts) @ '', temperatures='' @
               str_nat (length xs) @ ''; truncated to shorter length.'') \<in> set (warnings r) \<and>
              decimal_value (str_nat (length ts)) = Some (length ts) \<and>
              decimal_value (str_nat (length xs)) = Some (length xs)) \<and>
           (length ts = length xs \<longrightarrow>
              \<not> truncated r \<and>
              (\<forall>w\<in>set (warnings r). take 20 w \<noteq> ''Input lengths differ''))) \<and>
         (sequence_items tm' = Some ts' \<and> sequence_items tp' = Some xs' \<and>
          length ts' = length ts \<and> length xs' = length xs \<and>
          n = min (length ts) (length xs) \<and> take n ts' = take n ts \<and> take n xs' = take n xs \<longrightarrow>
            analyze_time_series parse tm' tp' = analyze_time_series parse tm tp)"
proof (rule conjI; rule impI)
  assume "analyze_time_series parse tm tp = Inr r"
  then obtain lt lx vt vx sk med i j where
    h: "py_len tm = Inr lt" "py_len tp = Inr lx"
    and r: "r = \<lparr> median = med,
           stddev = (if length vx < 2 then None
                     else Some (sqrt (statistics_ss vx / real (length vx - 1)))),
           min_temp = Min (set vx), min_time = vt ! i,
           max_temp = Max (set vx), max_time = vt ! j,
           average = sum_list vx / real (length vx),
           truncated = (lt \<noteq> lx), warnings = expected_warnings lt lx sk,
           count = length vx \<rparr>"
    by (rule analyze_time_series_result)
  have l: "lt = length ts" "lx = length xs"
    using h assms by (simp_all add: sequence_items_len)
  have f: "truncated r = (length ts \<noteq> length xs)"
    "warnings r = expected_warnings (length ts) (length xs) sk"
    by (simp_all add: r l)
  have "length ts \<noteq> length xs \<longrightarrow>
              truncated r \<and>
              (''Input lengths differ: times='' @ str_nat (length ts) @ '', temperatures='' @
               str_nat (length xs) @ ''; truncated to shorter length.'') \<in> set (warnings r) \<and>
              decimal_value (str_nat (length ts)) = Some (length ts) \<and>
              decimal_value (str_nat (length xs)) = Some (length xs)"
    by (simp add: f expected_warnings_def length_warning_def decimal_value_str_nat)
  moreover have "length ts = length xs \<longrightarrow>
              \<not> truncated r \<and>
              (\<forall>w\<in>set (warnings r). take 20 w \<noteq> ''Input lengths differ'')"
    by (simp add: f expected_warnings_def skipped_warning_def)
  ultimately show "(length ts \<noteq> length xs \<longrightarrow>
              truncated r \<and>
              (''Input lengths differ: times='' @ str_nat (length ts) @ '', temperatures='' @
               str_nat (length xs) @ ''; truncated to shorter length.'') \<in> set (warnings r) \<and>
              decimal_value (str_nat (length ts)) = Some (length ts) \<and>
              decimal_value (str_nat (length xs)) = Some (length xs)) \<and>
           (length ts = length xs \<longrightarrow>
              \<not> truncated r \<and>
              (\<forall>w\<in>set (warnings r). take 20 w \<noteq> ''Input lengths differ''))"
    by blast
next
  assume h: "sequence_items tm' = Some ts' \<and> sequence_items tp' = Some xs' \<and>
          length ts' = length ts \<and> length xs' = length xs \<and>
          n = min (length ts) (length xs) \<and> take n ts' = take n ts \<and> take n xs' = take n xs"
  have l: "py_len tm = Inr (length ts)" "py_len tp = Inr (length xs)"
    "py_len tm' = Inr (length ts)" "py_len tp' = Inr (length xs)"
    using h assms by (simp_all add: sequence_items_len)
  have "py_getitem tm' k = py_getitem tm k \<and> py_getitem tp' k = py_getitem tp k"
    if "k < min (length ts) (length xs)" for k
  proof -
    from h have hn: "n = min (length ts) (length xs)"
      and ht: "take n ts' = take n ts" and hx: "take n xs' = take n xs"
      and hl: "length ts' = length ts" "length xs' = length xs"
      and hs: "sequence_items tm' = Some ts'" "sequence_items tp' = Some xs'"
      by blast+
    have kn: "k < n" using that hn by simp
    have "ts' ! k = take n ts' ! k" using kn by simp
    also have "\<dots> = take n ts ! k" by (simp only: ht)
    also have "\<dots> = ts ! k" using kn by simp
    finally have t: "ts' ! k = ts ! k" .
    have "xs' ! k = take n xs' ! k" using kn by simp
    also have "\<dots> = take n xs ! k" by (simp only: hx)
    also have "\<dots> = xs ! k" using kn by simp
    finally have x: "xs' ! k = xs ! k" .
    have "k < length ts" "k < length xs" using that by simp_all
    then show ?thesis using t x hl hs assms by (simp add: sequence_items_getitem)
  qed
  then show "analyze_time_series parse tm' tp' = analyze_time_series parse tm tp"
    by (intro analyze_time_series_cong[OF l(3) l(1) l(4) l(2)]) blast
qed

theorem length_mismatch_truncates_witness:
  "(\<exists>r. analyze_time_series parse_unsigned
           (PList [PStr ''t0'', PStr ''t1'', PStr ''t2'']) (PList [PFloat 10, PFloat 20]) = Inr r \<and>
        truncated r \<and>
        ''Input lengths differ: times=3, temperatures=2; truncated to shorter length.''
          \<in> set (warnings r)) \<and>
   (\<exists>r. analyze_time_series parse_unsigned
           (PList [PStr ''t0'', PStr ''t1'']) (PList [PFloat 10, PFloat 20]) = Inr r \<and>
        \<not> truncated r \<and> (\<forall>w\<in>set (warnings r). take 20 w \<noteq> ''Input lengths differ'')) \<and>
   analyze_time_series parse_unsigned
       (PList [PStr ''t0'', PStr ''t1'', PNone]) (PList [PFloat 10, PFloat 20]) =
     analyze_time_series parse_unsigned
       (PList [PStr ''t0'', PStr ''t1'', PStr ''t2'']) (PList [PFloat 10, PFloat 20])"
proof -
  let ?tm = "PList [PStr ''t0'', PStr ''t1'', PStr ''t2'']" and ?tp = "PList [PFloat 10, PFloat 20]"
  let ?tm2 = "PList [PStr ''t0'', PStr ''t1'']"
  have rep: "stdev_representable [10, 20]"
    by (rule stdev_representableI) (simp add: statistics_ss_def)
  have v: "validate_pairs parse_unsigned ?tm ?tp [0..<min 3 2] ([], [], 0) =
             Inr ([PStr ''t0'', PStr ''t1''], [10, 20], 0)"
    by (simp add: upt_rec)
  have v2: "validate_pairs parse_unsigned ?tm2 ?tp [0..<min 2 2] ([], [], 0) =
             Inr ([PStr ''t0'', PStr ''t1''], [10, 20], 0)"
    by (simp add: upt_rec)
  obtain r where r: "analyze_time_series parse_unsigned ?tm ?tp = Inr r"
    using analyze_time_series_returns[of ?tm 3 ?tp 2, OF _ _ _ _ v _ rep] by auto
  obtain r2 where r2: "analyze_time_series parse_unsigned ?tm2 ?tp = Inr r2"
    using analyze_time_series_returns[of ?tm2 2 ?tp 2, OF _ _ _ _ v2 _ rep] by auto
  from length_mismatch_truncates[of ?tm "[PStr ''t0'', PStr ''t1'', PStr ''t2'']" ?tp
      "[PFloat 10, PFloat 20]" parse_unsigned r] r
  have a: "truncated r \<and>
        ''Input lengths differ: times=3, temperatures=2; truncated to shorter length.''
          \<in> set (warnings r)"
    by (simp add: str_nat_2 str_nat_3)
  from length_mismatch_truncates[of ?tm2 "[PStr ''t0'', PStr ''t1'']" ?tp
      "[PFloat 10, PFloat 20]" parse_unsigned r2] r2
  have b: "\<not> truncated r2 \<and> (\<forall>w\<in>set (warnings r2). take 20 w \<noteq> ''Input lengths differ'')"
    by simp
  from length_mismatch_truncates[of ?tm "[PStr ''t0'', PStr ''t1'', PStr ''t2'']" ?tp
      "[PFloat 10, PFloat 20]" parse_unsigned r "PList [PStr ''t0'', PStr ''t1'', PNone]"
      "[PStr ''t0'', PStr ''t1'', PNone]" ?tp "[PFloat 10, PFloat 20]" 2]
  have "analyze_time_series parse_unsigned
       (PList [PStr ''t0'', PStr ''t1'', PNone]) ?tp =
     analyze_time_series parse_unsigned ?tm ?tp" by simp
  with a b r r2 show ?thesis by blast
qed

section \<open>Rejected inputs\<close>

text \<open>
  C8: the call fails with \<^verbatim>\<open>WeatherAnalysisError\<close> when an argument is \<^verbatim>\<open>None\<close>, when a
  sequence has length zero, and when every pair below the effective length has \<^verbatim>\<open>None\<close> on
  either side, as for \<^verbatim>\<open>times=[None,None]\<close>, \<^verbatim>\<open>temperatures=[None,None]\<close>.
\<close>

theorem invalid_inputs_rejected:
  "(tm = PNone \<or> tp = PNone \<longrightarrow>
      analyze_time_series parse tm tp =
        Inl (WeatherAnalysisError (Msg ''Both 'times' and 'temperatures' must be provided.''))) \<and>
   (py_len tm = Inr 0 \<or> py_len tp = Inr 0 \<longrightarrow>
      (\<exists>m. analyze_time_series parse tm tp = Inl (WeatherAnalysisError (Msg m)))) \<and>
   (py_len tm = Inr a \<and> py_len tp = Inr b \<and> (a = 0 \<or> b = 0) \<longrightarrow>
      analyze_time_series parse tm tp =
        Inl (WeatherAnalysisError (Msg '''times' and 'temperatures' must not be empty.''))) \<and>
   (sequence_items tm = Some ts \<and> sequence_items tp = Some xs \<and> ts \<noteq> [] \<and> xs \<noteq> [] \<and>
    (\<forall>i<min (length ts) (length xs). \<not> present ts xs i) \<longrightarrow>
      analyze_time_series parse tm tp =
        Inl (WeatherAnalysisError
          (Msg ''No valid time/temperature pairs available after validation.''))) \<and>
   analyze_time_series parse (PList [PNone, PNone]) (PList [PNone, PNone]) =
     Inl (WeatherAnalysisError
       (Msg ''No valid time/temperature pairs available after validation.''))"
proof (intro conjI impI)
  assume "tm = PNone \<or> tp = PNone"
  then show "analyze_time_series parse tm tp =
        Inl (WeatherAnalysisError (Msg ''Both 'times' and 'temperatures' must be provided.''))"
    by (simp add: analyze_time_series_def)
next
  assume "py_len tm = Inr 0 \<or> py_len tp = Inr 0"
  then show "\<exists>m. analyze_time_series parse tm tp = Inl (WeatherAnalysisError (Msg m))"
    unfolding analyze_time_series_def reconcile_def
    by (auto split: sum.splits)
next
  assume h: "py_len tm = Inr a \<and> py_len tp = Inr b \<and> (a = 0 \<or> b = 0)"
  then have "tm \<noteq> PNone" "tp \<noteq> PNone" by auto
  with h show "analyze_time_series parse tm tp =
        Inl (WeatherAnalysisError (Msg '''times' and 'temperatures' must not be empty.''))"
    unfolding analyze_time_series_def reconcile_def by auto
next
  assume h: "sequence_items tm = Some ts \<and> sequence_items tp = Some xs \<and> ts \<noteq> [] \<and> xs \<noteq> [] \<and>
    (\<forall>i<min (length ts) (length xs). \<not> present ts xs i)"
  let ?n = "min (length ts) (length xs)"
  have e: "filter (present ts xs) [0..<?n] = []"
    using h by (simp add: filter_empty_conv)
  have "validate_pairs parse tm tp [0..<?n] ([], [], 0) =
         Inr ([] @ map (\<lambda>i. ts ! i) (filter (present ts xs) [0..<?n]),
              [] @ map (\<lambda>i. float_value parse (xs ! i)) (filter (present ts xs) [0..<?n]),
              0 + length (filter (\<lambda>i. \<not> present ts xs i) [0..<?n]))"
    using h by (intro validate_pairs_ok) auto
  then have v: "validate_pairs parse tm tp [0..<?n] ([], [], 0) =
         Inr ([], [], length (filter (\<lambda>i. \<not> present ts xs i) [0..<?n]))"
    unfolding e by simp
  have n0: "length ts \<noteq> 0" "length xs \<noteq> 0" using h by auto
  from h have l: "py_len tm = Inr (length ts)" "py_len tp = Inr (length xs)"
    by (simp_all add: sequence_items_len)
  show "analyze_time_series parse tm tp =
        Inl (WeatherAnalysisError
          (Msg ''No valid time/temperature pairs available after validation.''))"
    by (rule analyze_time_series_no_valid[OF l n0 v])
next
  show "analyze_time_series parse (PList [PNone, PNone]) (PList [PNone, PNone]) =
     Inl (WeatherAnalysisError
       (Msg ''No valid time/temperature pairs available after validation.''))"
    by (simp add: analyze_time_series_def reconcile_def upt_rec)
qed

theorem invalid_inputs_rejected_witness:
  "analyze_time_series parse_unsigned PNone (PList [PFloat 1]) =
     Inl (WeatherAnalysisError (Msg ''Both 'times' and 'temperatures' must be provided.'')) \<and>
   (\<exists>m. analyze_time_series parse_unsigned (PList []) (PInt 5) =
     Inl (WeatherAnalysisError (Msg m))) \<and>
   analyze_time_series parse_unsigned (PList [PStr ''t0'']) (PList []) =
     Inl (WeatherAnalysisError (Msg '''times' and 'temperatures' must not be empty.'')) \<and>
   analyze_time_series parse_unsigned (PList [PNone, PStr ''t1'']) (PList [PFloat 1, PNone]) =
     Inl (WeatherAnalysisError
       (Msg ''No valid time/temperature pairs available after validation.''))"
proof (intro conjI)
  show "analyze_time_series parse_unsigned PNone (PList [PFloat 1]) =
     Inl (WeatherAnalysisError (Msg ''Both 'times' and 'temperatures' must be provided.''))"
    using invalid_inputs_rejected[of PNone "PList [PFloat 1]" parse_unsigned] by simp
  show "\<exists>m. analyze_time_series parse_unsigned (PList []) (PInt 5) =
     Inl (WeatherAnalysisError (Msg m))"
    using invalid_inputs_rejected[of "PList []" "PInt 5" parse_unsigned] by simp
  show "analyze_time_series parse_unsigned (PList [PStr ''t0'']) (PList []) =
     Inl (WeatherAnalysisError (Msg '''times' and 'temperatures' must not be empty.''))"
    using invalid_inputs_rejected[of "PList [PStr ''t0'']" "PList []" parse_unsigned 1 0] by simp
  have "\<forall>i<min (length [PNone, PStr ''t1'']) (length [PFloat 1, PNone]).
          \<not> present [PNone, PStr ''t1''] [PFloat 1, PNone] i"
    by (simp add: present_def less_Suc_eq)
  then show "analyze_time_series parse_unsigned (PList [PNone, PStr ''t1'']) (PList [PFloat 1, PNone]) =
     Inl (WeatherAnalysisError
       (Msg ''No valid time/temperature pairs available after validation.''))"
    using invalid_inputs_rejected[of "PList [PNone, PStr ''t1'']" "PList [PFloat 1, PNone]"
        parse_unsigned _ _ "[PNone, PStr ''t1'']" "[PFloat 1, PNone]"] by simp
qed

text \<open>
  C9: the \<^verbatim>\<open>None\<close> test comes before the coercion. Where the time is \<^verbatim>\<open>None\<close> the temperature
  is not looked at: replacing it by any value leaves the outcome of the call unchanged.
  \<^verbatim>\<open>times=[None]\<close>, \<^verbatim>\<open>temperatures=["abc"]\<close> ends with the no-valid-pairs error, and an
  invalid-temperature error names an index whose time and temperature are both present.
\<close>

theorem none_time_skips_before_coercion:
  "(sequence_items tm = Some ts \<and> sequence_items tp = Some xs \<and>
    i < length ts \<and> i < length xs \<and> ts ! i = PNone \<longrightarrow>
      analyze_time_series parse tm (PList (xs[i := v])) = analyze_time_series parse tm tp) \<and>
   analyze_time_series parse (PList [PNone]) (PList [PStr ''abc'']) =
     Inl (WeatherAnalysisError
       (Msg ''No valid time/temperature pairs available after validation.'')) \<and>
   (analyze_time_series parse tm tp =
      Inl (WeatherAnalysisError (Invalid_temperature_value_at_index j w)) \<longrightarrow>
      (\<exists>t. py_getitem tm j = Inr t \<and> t \<noteq> PNone \<and> py_getitem tp j = Inr w \<and> w \<noteq> PNone))"
proof (intro conjI impI)
  assume h: "sequence_items tm = Some ts \<and> sequence_items tp = Some xs \<and>
    i < length ts \<and> i < length xs \<and> ts ! i = PNone"
  have l: "py_len tm = Inr (length ts)" "py_len tp = Inr (length xs)"
    "py_len (PList (xs[i := v])) = Inr (length xs)"
    using h by (simp_all add: sequence_items_len)
  have "py_getitem tm k = py_getitem tm k \<and>
          (py_getitem (PList (xs[i := v])) k = py_getitem tp k \<or>
           (py_getitem tm k = Inr PNone \<and> (\<exists>a. py_getitem (PList (xs[i := v])) k = Inr a) \<and>
            (\<exists>b. py_getitem tp k = Inr b)))"
    if "k < min (length ts) (length xs)" for k
  proof (cases "k = i")
    case True
    then show ?thesis using h that by (simp add: sequence_items_getitem)
  next
    case False
    then show ?thesis using h that by (simp add: sequence_items_getitem)
  qed
  then show "analyze_time_series parse tm (PList (xs[i := v])) = analyze_time_series parse tm tp"
    by (intro analyze_time_series_cong[OF l(1) l(1) l(3) l(2)]) blast
next
  show "analyze_time_series parse (PList [PNone]) (PList [PStr ''abc'']) =
     Inl (WeatherAnalysisError
       (Msg ''No valid time/temperature pairs available after validation.''))"
    by (simp add: analyze_time_series_def reconcile_def)
next
  assume "analyze_time_series parse tm tp =
      Inl (WeatherAnalysisError (Invalid_temperature_value_at_index j w))"
  from analyze_time_series_weather_error[OF this]
  show "\<exists>t. py_getitem tm j = Inr t \<and> t \<noteq> PNone \<and> py_getitem tp j = Inr w \<and> w \<noteq> PNone"
    by blast
qed

theorem none_time_skips_before_coercion_witness:
  "analyze_time_series parse_unsigned (PList [PStr ''t0'', PNone])
       (PList ([PFloat 1, PFloat 2][1 := PStr ''abc''])) =
     analyze_time_series parse_unsigned (PList [PStr ''t0'', PNone]) (PList [PFloat 1, PFloat 2]) \<and>
   analyze_time_series parse_unsigned (PList [PStr ''t0'']) (PList [PStr ''abc'']) =
     Inl (WeatherAnalysisError (Invalid_temperature_value_at_index 0 (PStr ''abc''))) \<and>
   (\<exists>t. py_getitem (PList [PStr ''t0'']) 0 = Inr t \<and> t \<noteq> PNone)"
proof -
  have a: "analyze_time_series parse_unsigned (PList [PStr ''t0'']) (PList [PStr ''abc'']) =
     Inl (WeatherAnalysisError (Invalid_temperature_value_at_index 0 (PStr ''abc'')))"
    by (simp add: analyze_time_series_def reconcile_def parse_unsigned_def)
  from none_time_skips_before_coercion[of "PList [PStr ''t0'', PNone]" "[PStr ''t0'', PNone]"
      "PList [PFloat 1, PFloat 2]" "[PFloat 1, PFloat 2]" 1 parse_unsigned "PStr ''abc''"]
  have b: "analyze_time_series parse_unsigned (PList [PStr ''t0'', PNone])
       (PList ([PFloat 1, PFloat 2][1 := PStr ''abc''])) =
     analyze_time_series parse_unsigned (PList [PStr ''t0'', PNone]) (PList [PFloat 1, PFloat 2])"
    by simp
  from none_time_skips_before_coercion[of "PList [PStr ''t0'']" _ "PList [PStr ''abc'']" _ _
      parse_unsigned _ 0 "PStr ''abc''"] a
  have "\<exists>t. py_getitem (PList [PStr ''t0'']) 0 = Inr t \<and> t \<noteq> PNone" by blast
  with a b show ?thesis by blast
qed

end
